theory Spec2Isabelle
  imports Main
begin

section \<open>Data model of the analytics client (packages/core/src/analytics.ts)\<close>

text \<open>
  The client is a JavaScript object whose methods mutate its fields and call into
  collaborators (the store, the timeline, the plugins, the logger). The embedding passes
  the client state explicitly. Calls that leave the client (a plugin's configure or
  flush, Timeline.add, Timeline.process, a store write, a logger line) are appended to
  the field \<open>trace\<close>, in the order in which the code makes them, so that orderings and
  counts of such calls can be stated. The trace also records every return of \<open>flush()\<close>,
  with the value that the elapsed-seconds counter has at that moment.
\<close>

datatype PluginType = before | enrichment | utility | destination | after

datatype JsonValue = JString string | JNumber int | JBool bool | JNull | JUndefined

type_synonym JsonMap = "string \<rightharpoonup> JsonValue"

text \<open>
  What a plugin's \<open>flush()\<close> does, as far as the client can observe it: it may call
  \<open>client.flush()\<close> again before it returns (directly, or through the store's
  size watcher when it touches the buffered events), and it may throw.
\<close>

datatype FlushBehaviour = FlushBehaviour (reenters: nat) (throws: bool)

text \<open>
  A plugin: an identity, its stage tag \<open>type\<close>, the plugins its \<open>configure(client)\<close>
  hands to \<open>client.add\<close> (none for the base class), and its optional \<open>flush\<close>.
\<close>

datatype Plugin =
  Plugin (plugin_id: nat) (plugin_type: PluginType) (configure_adds: "Plugin list")
    (flush_op: "FlushBehaviour option")

text \<open>
  Modelled from the spec: the event builders of events.ts (that file is not part of the
  sources at hand). "Event: tagged union over Track, Screen, Identify, Group, Alias ...
  kind-specific payload". Each builder is a constructor that keeps the arguments of the
  call; the identify test expects \<open>{type: 'identify', traits}\<close> from
  \<open>createIdentifyEvent\<close>.
\<close>

datatype SegmentEvent =
    TrackEvent string "JsonMap option"
  | ScreenEvent string "JsonMap option"
  | IdentifyEvent JsonMap
  | GroupEvent string "JsonMap option"
  | AliasEvent string "string option" string

definition createTrackEvent :: "string \<Rightarrow> JsonMap option \<Rightarrow> SegmentEvent" where
  "createTrackEvent event properties = TrackEvent event properties"

definition createScreenEvent :: "string \<Rightarrow> JsonMap option \<Rightarrow> SegmentEvent" where
  "createScreenEvent name properties = ScreenEvent name properties"

definition createIdentifyEvent :: "JsonMap \<Rightarrow> SegmentEvent" where
  "createIdentifyEvent userTraits = IdentifyEvent userTraits"

definition createGroupEvent :: "string \<Rightarrow> JsonMap option \<Rightarrow> SegmentEvent" where
  "createGroupEvent groupId groupTraits = GroupEvent groupId groupTraits"

text \<open>
  \<open>createAliasEvent({anonymousId, userId, newUserId})\<close>: the three fields of the
  constructor are, in this order, the anonymous id, the old user id and the new user id.
\<close>

definition createAliasEvent :: "string \<Rightarrow> string option \<Rightarrow> string \<Rightarrow> SegmentEvent" where
  "createAliasEvent anonymousId userId newUserId = AliasEvent anonymousId userId newUserId"

fun alias_old_user_id :: "SegmentEvent \<Rightarrow> string option" where
  "alias_old_user_id (AliasEvent a u n) = u"
| "alias_old_user_id _ = None"

record UserInfoState =
  anonymousId :: string
  userId :: "string option"
  traits :: "JsonMap option"

text \<open>
  The Context snapshot. Only \<open>app.version\<close> and \<open>app.build\<close> are read by the client;
  the freshly captured Context has both, the persisted one is a DeepPartial in which
  \<open>app\<close> and each of its fields may be missing.
\<close>

record ContextApp =
  version :: string
  build :: string

record Context =
  app :: ContextApp

record PartialContextApp =
  version_opt :: "string option"
  build_opt :: "string option"

record PartialContext =
  app_opt :: "PartialContextApp option"

definition as_partial :: "Context \<Rightarrow> PartialContext" where
  "as_partial ctx =
     \<lparr>app_opt = Some \<lparr>version_opt = Some (version (app ctx)), build_opt = Some (build (app ctx))\<rparr>\<rparr>"

text \<open>
  Modelled from the spec: \<open>applyRawEventData\<close> of events.ts. "Orchestrator enriches with
  stored user identity": the event handed to the timeline is the built event together
  with the anonymous and user identifiers read from the store at that moment. The
  message identifier and the timestamp it also assigns are left out.
\<close>

record EnrichedEvent =
  payload :: SegmentEvent
  event_anonymousId :: string
  event_userId :: "string option"

definition applyRawEventData :: "SegmentEvent \<Rightarrow> UserInfoState \<Rightarrow> EnrichedEvent" where
  "applyRawEventData event userInfo =
     \<lparr>payload = event, event_anonymousId = anonymousId userInfo, event_userId = userId userInfo\<rparr>"

datatype AppStateStatus = active | background | inactive | unknown | extension

datatype Effect =
    Configure Plugin
  | TimelineAdd Plugin
  | TimelineProcess EnrichedEvent
  | PluginFlush Plugin
  | FlushReturned int
  | UserInfoSet UserInfoState
  | ContextSet PartialContext
  | LoggerInfo string
  | LoggerError

text \<open>
  An unsubscribe function handed out by the store; calling it may throw.
\<close>

datatype Unsubscribe = Unsubscribe (unsubscribe_throws: bool)

record Config =
  writeKey :: string
  flushAt :: int
  flushInterval :: int
  trackAppLifecycleEvents :: bool
  trackDeepLinks :: bool
  autoAddSegmentDestination :: bool

text \<open>
  The store, with the slices the client reads and writes: the buffered events, the user
  info and the persisted context.
\<close>

record Storage =
  store_events :: "EnrichedEvent list"
  store_userInfo :: UserInfoState
  store_context :: "PartialContext option"

text \<open>
  The fields of \<open>SegmentClient\<close>. The timer handle of the field \<open>flushInterval\<close> is
  \<open>flushIntervalTimer\<close> (the name \<open>flushInterval\<close> is taken by the configuration):
  \<open>None\<close> is \<open>null\<close>, \<open>Some running\<close> a handle whose timer is running or cleared.
  \<open>appStateSubscription\<close> is \<open>None\<close> while undefined, else it says whether the
  listener is still attached. The field \<open>readinessWatcher\<close> is never assigned and has no
  counterpart. \<open>uuid_source\<close> and \<open>uuid_issued\<close> stand for the identifier generator
  behind \<open>getUUID\<close>, an injected dependency: \<open>uuid_source k\<close> is the k-th identifier
  it issues. \<open>trace\<close> is the record of the calls that leave the client. The counter
  \<open>secondsElapsed\<close> and the configured interval are JavaScript numbers that hold whole
  seconds; they are integers here, and the \<open>+ 1\<close> of \<open>tick\<close> is the addition of
  IEEE-754 doubles (\<open>js_add\<close> below).
\<close>

record Client =
  config :: Config
  store :: Storage
  secondsElapsed :: int
  appState :: AppStateStatus
  appStateSubscription :: "bool option"
  flushIntervalTimer :: "bool option"
  watchers :: "Unsubscribe list"
  destroyed :: bool
  isPendingUpload :: bool
  isAddingPlugins :: bool
  timeline :: "PluginType \<Rightarrow> Plugin list"
  isStorageReady :: bool
  pluginsToAdd :: "Plugin list"
  isInitialized :: bool
  uuid_source :: "nat \<Rightarrow> string"
  uuid_issued :: nat
  trace :: "Effect list"

definition log :: "Effect \<Rightarrow> Client \<Rightarrow> Client" where
  "log e c = c\<lparr>trace := trace c @ [e]\<rparr>"

section \<open>Readiness gate: add, addPlugin, onStorageReady\<close>

text \<open>
  Modelled from the spec: \<open>Timeline.add\<close> (timeline.ts is not part of the sources at
  hand). "add(plugin): appends to the bucket matching the plugin's stage tag; ... no
  dedup inside Timeline".
\<close>

definition timeline_add :: "Plugin \<Rightarrow> Client \<Rightarrow> Client" where
  "timeline_add plugin c =
     log (TimelineAdd plugin)
       (c\<lparr>timeline := (timeline c)(plugin_type plugin := timeline c (plugin_type plugin) @ [plugin])\<rparr>)"

text \<open>
  \<open>add({plugin})\<close> and \<open>addPlugin(plugin)\<close>. \<open>plugin.configure(this)\<close> runs first and
  may call \<open>add\<close> for further plugins; then the plugin goes into the timeline. The
  optional \<open>settings\<close> argument of \<open>add\<close> only writes the settings slice of the store
  and is left out.
\<close>

function add :: "Plugin \<Rightarrow> Client \<Rightarrow> Client"
  and addPlugin :: "Plugin \<Rightarrow> Client \<Rightarrow> Client" where
  "add plugin c =
     (if \<not> isStorageReady c then c\<lparr>pluginsToAdd := pluginsToAdd c @ [plugin]\<rparr>
      else addPlugin plugin c)"
| "addPlugin plugin c =
     timeline_add plugin (fold add (configure_adds plugin) (log (Configure plugin) c))"
  by pat_completeness auto
termination
proof (relation "measure (\<lambda>x. case x of Inl (p, c) \<Rightarrow> 2 * size p + 1 | Inr (p, c) \<Rightarrow> 2 * size p)")
  fix plugin :: Plugin and c c' :: Client and q :: Plugin
  assume "q \<in> set (configure_adds plugin)"
  then have "size q < size plugin"
    by (cases plugin)
      (auto simp: less_Suc_eq_le dest: size_list_estimation'[where f = size and y = "size q", OF _ order_refl])
  then show "(Inl (q, c'), Inr (plugin, c)) \<in>
      measure (\<lambda>x. case x of Inl (p, c) \<Rightarrow> 2 * size p + 1 | Inr (p, c) \<Rightarrow> 2 * size p)"
    by simp
qed simp_all

declare add.simps [simp del] addPlugin.simps [simp del]

text \<open>
  \<open>unsubscribeReadinessWatcher\<close> calls \<open>this.readinessWatcher?.()\<close>. The field is
  declared \<open>undefined\<close> and never assigned (init() drops what \<open>isReady.onChange\<close>
  returns), so the optional call does nothing.
\<close>

definition unsubscribeReadinessWatcher :: "Client \<Rightarrow> Client" where
  "unsubscribeReadinessWatcher c = c"

text \<open>
  \<open>onStorageReady(isReady)\<close>. \<open>Array.prototype.forEach\<close> fixes the range of indices
  before the first callback: elements pushed onto \<open>pluginsToAdd\<close> while the loop runs
  are not visited. Nothing removes elements during the loop, so the loop visits exactly
  the elements the array holds when it starts. The \<open>finally\<close> block clears
  \<open>isAddingPlugins\<close>.
\<close>

definition onStorageReady :: "bool \<Rightarrow> Client \<Rightarrow> Client" where
  "onStorageReady isReady c =
     (if isReady \<and> length (pluginsToAdd c) > 0 \<and> \<not> isAddingPlugins c then
        let c1 = c\<lparr>isAddingPlugins := True\<rparr>;
            c2 = fold addPlugin (pluginsToAdd c1) c1;
            c3 = c2\<lparr>pluginsToAdd := []\<rparr>;
            c4 = c3\<lparr>isStorageReady := True\<rparr>;
            c5 = unsubscribeReadinessWatcher c4
        in c5\<lparr>isAddingPlugins := False\<rparr>
      else c)"

section \<open>Event dispatch and the user-info operations\<close>

text \<open>
  Modelled from the spec: \<open>Timeline.process\<close> and the Storage slices (timeline.ts and
  storage.ts are not part of the sources at hand). The timeline "routes one event
  through a fixed stage sequence"; none of the stages is looked at here, the hand-over
  of the event is recorded. The store gives "synchronous read-after-write": a \<open>set\<close>
  replaces the slice (the store test: "replaces context with new context").
\<close>

definition timeline_process :: "EnrichedEvent \<Rightarrow> Client \<Rightarrow> Client" where
  "timeline_process event c = log (TimelineProcess event) c"

definition userInfo_set :: "UserInfoState \<Rightarrow> Client \<Rightarrow> Client" where
  "userInfo_set u c = log (UserInfoSet u) (c\<lparr>store := (store c)\<lparr>store_userInfo := u\<rparr>\<rparr>)"

definition context_set :: "PartialContext \<Rightarrow> Client \<Rightarrow> Client" where
  "context_set ctx c = log (ContextSet ctx) (c\<lparr>store := (store c)\<lparr>store_context := Some ctx\<rparr>\<rparr>)"

text \<open>
  Modelled from the spec: \<open>getUUID\<close> of uuid.ts, "identifier generation ... treated as
  injected dependencies with a fixed contract". It issues the next identifier of
  \<open>uuid_source\<close>.
\<close>

definition getUUID :: "Client \<Rightarrow> string \<times> Client" where
  "getUUID c = (uuid_source c (uuid_issued c), c\<lparr>uuid_issued := Suc (uuid_issued c)\<rparr>)"

definition process :: "SegmentEvent \<Rightarrow> Client \<Rightarrow> Client" where
  "process incomingEvent c =
     (let event = applyRawEventData incomingEvent (store_userInfo (store c))
      in timeline_process event c)"

definition screen :: "string \<Rightarrow> JsonMap option \<Rightarrow> Client \<Rightarrow> Client" where
  "screen name options c =
     (let event = createScreenEvent name options;
          c1 = process event c
      in log (LoggerInfo ''SCREEN event saved'') c1)"

definition track :: "string \<Rightarrow> JsonMap option \<Rightarrow> Client \<Rightarrow> Client" where
  "track eventName options c =
     (let event = createTrackEvent eventName options;
          c1 = process event c
      in log (LoggerInfo ''TRACK event saved'') c1)"

text \<open>Object spread \<open>{...m}\<close> of a possibly undefined object: undefined spreads nothing.\<close>

definition spread :: "JsonMap option \<Rightarrow> JsonMap" where
  "spread m = (case m of None \<Rightarrow> Map.empty | Some m' \<Rightarrow> m')"

definition identify :: "string \<Rightarrow> JsonMap option \<Rightarrow> Client \<Rightarrow> Client" where
  "identify uid userTraits c =
     (let userInfo = store_userInfo (store c);
          currentUserTraits = traits userInfo;
          mergedTraits = spread currentUserTraits ++ spread userTraits;
          event = createIdentifyEvent mergedTraits;
          c1 = userInfo_set (userInfo\<lparr>userId := Some uid, traits := Some mergedTraits\<rparr>) c;
          c2 = process event c1
      in log (LoggerInfo ''IDENTIFY event saved'') c2)"

definition group :: "string \<Rightarrow> JsonMap option \<Rightarrow> Client \<Rightarrow> Client" where
  "group groupId groupTraits c =
     (let event = createGroupEvent groupId groupTraits;
          c1 = process event c
      in log (LoggerInfo ''GROUP event saved'') c1)"

text \<open>\<open>alias(newUserId)\<close>; the name \<open>alias\<close> is reserved, hence \<open>alias_op\<close>.\<close>

definition alias_op :: "string \<Rightarrow> Client \<Rightarrow> Client" where
  "alias_op newUserId c =
     (let userInfo = store_userInfo (store c);
          event = createAliasEvent (anonymousId userInfo) (userId userInfo) newUserId;
          c1 = userInfo_set ((store_userInfo (store c))\<lparr>userId := Some newUserId\<rparr>) c;
          c2 = process event c1
      in log (LoggerInfo ''ALIAS event saved'') c2)"

definition reset :: "Client \<Rightarrow> Client" where
  "reset c =
     (let (uuid, c1) = getUUID c;
          c2 = userInfo_set \<lparr>anonymousId = uuid, userId = None, traits = None\<rparr> c1
      in log (LoggerInfo ''Client has been reset'') c2)"

text \<open>The reducers of the userInfo slice (store/userInfo.ts).\<close>

definition reducers_reset :: "string \<Rightarrow> UserInfoState" where
  "reducers_reset uuid = \<lparr>anonymousId = uuid, userId = None, traits = None\<rparr>"

definition reducers_setUserId :: "UserInfoState \<Rightarrow> string option \<Rightarrow> UserInfoState" where
  "reducers_setUserId state uid = state\<lparr>userId := uid\<rparr>"

definition reducers_setTraits :: "UserInfoState \<Rightarrow> JsonMap option \<Rightarrow> UserInfoState" where
  "reducers_setTraits state new_traits = state\<lparr>traits := Some (spread new_traits)\<rparr>"

definition reducers_setAnonymousId :: "UserInfoState \<Rightarrow> string \<Rightarrow> UserInfoState" where
  "reducers_setAnonymousId state aid = state\<lparr>anonymousId := aid\<rparr>"

section \<open>Lifecycle tracker: checkInstalledVersion, handleAppStateChange\<close>

definition json_of :: "string option \<Rightarrow> JsonValue" where
  "json_of v = (case v of None \<Rightarrow> JUndefined | Some s \<Rightarrow> JString s)"

text \<open>The optional chain \<open>context?.app\<close> on the persisted context.\<close>

definition context_app :: "PartialContext option \<Rightarrow> PartialContextApp option" where
  "context_app ctx = (case ctx of None \<Rightarrow> None | Some p \<Rightarrow> app_opt p)"

text \<open>
  \<open>checkInstalledVersion()\<close>. The argument \<open>context\<close> is what \<open>getContext\<close> returns
  (context.ts is not part of the sources at hand).
\<close>

definition checkInstalledVersion :: "Context \<Rightarrow> Client \<Rightarrow> Client" where
  "checkInstalledVersion context c =
     (let previousContext = store_context (store c);
          c1 = context_set (as_partial context) c
      in if \<not> trackAppLifecycleEvents (config c1) then c1
         else
           let c2 =
                 (case context_app previousContext of
                    None \<Rightarrow>
                      let event =
                            createTrackEvent ''Application Installed''
                              (Some [''version'' \<mapsto> JString (version (app context)),
                                     ''build'' \<mapsto> JString (build (app context))])
                      in log (LoggerInfo ''TRACK (Application Installed) event saved'')
                           (process event c1)
                  | Some previous_app \<Rightarrow>
                      if Some (version (app context)) \<noteq> version_opt previous_app then
                        let event =
                              createTrackEvent ''Application Updated''
                                (Some [''version'' \<mapsto> JString (version (app context)),
                                       ''build'' \<mapsto> JString (build (app context)),
                                       ''previous_version'' \<mapsto> json_of (version_opt previous_app),
                                       ''previous_build'' \<mapsto> json_of (build_opt previous_app)])
                        in log (LoggerInfo ''TRACK (Application Updated) event saved'')
                             (process event c1)
                      else c1);
               event =
                 createTrackEvent ''Application Opened''
                   (Some [''from_background'' \<mapsto> JBool False,
                          ''version'' \<mapsto> JString (version (app context)),
                          ''build'' \<mapsto> JString (build (app context))])
           in log (LoggerInfo ''TRACK (Application Opened) event saved'') (process event c2))"

text \<open>
  \<open>handleAppStateChange(nextAppState)\<close>. \<open>context?.app?.version\<close> is undefined when
  the context, its \<open>app\<close> or the version is missing.
\<close>

definition handleAppStateChange :: "AppStateStatus \<Rightarrow> Client \<Rightarrow> Client" where
  "handleAppStateChange nextAppState c =
     (let c1 =
            (if trackAppLifecycleEvents (config c) then
               if List.member [inactive, background] (appState c) \<and> nextAppState = active then
                 let context = store_context (store c);
                     event =
                       createTrackEvent ''Application Opened''
                         (Some [''from_background'' \<mapsto> JBool True,
                                ''version'' \<mapsto>
                                  (case context_app context of None \<Rightarrow> JUndefined
                                   | Some a \<Rightarrow> json_of (version_opt a)),
                                ''build'' \<mapsto>
                                  (case context_app context of None \<Rightarrow> JUndefined
                                   | Some a \<Rightarrow> json_of (build_opt a))])
                 in log (LoggerInfo ''TRACK (Application Opened) event saved'') (process event c)
               else if appState c = active \<and> List.member [inactive, background] nextAppState then
                 let event = createTrackEvent ''Application Backgrounded'' None
                 in log (LoggerInfo ''TRACK (Application Backgrounded) event saved'')
                      (process event c)
               else c
             else c)
      in c1\<lparr>appState := nextAppState\<rparr>)"

section \<open>Flush scheduler: flush, tick, cleanup\<close>

text \<open>
  \<open>getPlugins(ofType?)\<close>: the bucket of one stage, or all buckets in the order of the
  stages. A stage without a bucket is the empty list.
\<close>

definition getPlugins :: "PluginType option \<Rightarrow> Client \<Rightarrow> Plugin list" where
  "getPlugins ofType c =
     (case ofType of
        Some t \<Rightarrow> timeline c t
      | None \<Rightarrow>
          timeline c before @ timeline c enrichment @ timeline c utility @
          timeline c destination @ timeline c after)"

text \<open>
  Modelled from the spec: \<open>getPluginsWithFlush\<close> of util.ts (not part of the sources at
  hand). "any plugin exposing a flush capability ... can be enumerated"; the stages are
  listed in their fixed order, each in registration order.
\<close>

definition getPluginsWithFlush :: "(PluginType \<Rightarrow> Plugin list) \<Rightarrow> Plugin list" where
  "getPluginsWithFlush plugins =
     filter (\<lambda>p. flush_op p \<noteq> None)
       (plugins before @ plugins enrichment @ plugins utility @ plugins destination @ plugins after)"

text \<open>
  \<open>flush()\<close> is an \<open>async\<close> method without an \<open>await\<close>: its body runs to the end
  within the call, and what it throws rejects the promise it returns instead of
  reaching the caller. The promise is modelled by its outcome and the client state at
  the end of the body.
\<close>

datatype 'a Promise = Fulfilled 'a | Rejected 'a

fun settled :: "'a Promise \<Rightarrow> 'a" where
  "settled (Fulfilled c) = c"
| "settled (Rejected c) = c"

text \<open>
  A plugin's \<open>flush()\<close>, called by the client: the call is recorded, the plugin calls
  \<open>client.flush()\<close> as often as its behaviour says (\<open>self\<close> is that method), and then
  returns (\<open>Inr\<close>) or throws (\<open>Inl\<close>). Calling \<open>flush\<close> on a plugin that has none
  is a TypeError, a throw before anything happens.
\<close>

fun reenter :: "(Client \<Rightarrow> Client Promise option) \<Rightarrow> nat \<Rightarrow> Client \<Rightarrow> Client option" where
  "reenter self 0 c = Some c"
| "reenter self (Suc k) c =
     (case self c of None \<Rightarrow> None | Some pr \<Rightarrow> reenter self k (settled pr))"

definition plugin_flush ::
  "(Client \<Rightarrow> Client Promise option) \<Rightarrow> Plugin \<Rightarrow> Client \<Rightarrow> (Client + Client) option" where
  "plugin_flush self plugin c =
     (case flush_op plugin of
        None \<Rightarrow> Some (Inl c)
      | Some b \<Rightarrow>
          (case reenter self (reenters b) (log (PluginFlush plugin) c) of
             None \<Rightarrow> None
           | Some c' \<Rightarrow> Some (if throws b then Inl c' else Inr c')))"

text \<open>\<open>plugins.forEach((plugin) => plugin.flush())\<close>: the first throw ends the loop.\<close>

fun forEach_flush ::
  "(Client \<Rightarrow> Client Promise option) \<Rightarrow> Plugin list \<Rightarrow> Client \<Rightarrow> (Client + Client) option" where
  "forEach_flush self [] c = Some (Inr c)"
| "forEach_flush self (plugin # plugins) c =
     (case plugin_flush self plugin c of
        None \<Rightarrow> None
      | Some (Inl c') \<Rightarrow> Some (Inl c')
      | Some (Inr c') \<Rightarrow> forEach_flush self plugins c')"

text \<open>
  The end of a call of \<open>flush()\<close>: the return is recorded, with the counter as it is.
\<close>

definition returned :: "Client \<Rightarrow> Client" where
  "returned c = log (FlushReturned (secondsElapsed c)) c"

text \<open>
  The body of \<open>flush()\<close>, with the method that a plugin reaches as \<open>client.flush\<close>
  passed in as \<open>self\<close>. The \<open>finally\<close> block clears \<open>isPendingUpload\<close> on every way
  out of the \<open>try\<close>: the early return of a destroyed client, the normal end, and a throw
  of a plugin, which rejects the promise.
\<close>

definition flush_body :: "(Client \<Rightarrow> Client Promise option) \<Rightarrow> Client \<Rightarrow> Client Promise option" where
  "flush_body self c =
     (if \<not> isPendingUpload c then
        let c1 = c\<lparr>isPendingUpload := True\<rparr> in
        (case (if destroyed c1 then Some (Inr c1)
               else
                 let c2 = c1\<lparr>secondsElapsed := 0\<rparr>;
                     events = store_events (store c2)
                 in if length events > 0
                    then forEach_flush self (getPluginsWithFlush (timeline c2)) c2
                    else Some (Inr c2))
         of None \<Rightarrow> None
          | Some (Inl c') \<Rightarrow> Some (Rejected (returned (c'\<lparr>isPendingUpload := False\<rparr>)))
          | Some (Inr c') \<Rightarrow> Some (Fulfilled (returned (c'\<lparr>isPendingUpload := False\<rparr>))))
      else Some (Fulfilled (returned c)))"

text \<open>
  \<open>flush\<close> calls itself through the plugins, so the recursion is bounded by fuel:
  \<open>None\<close> means the fuel ran out. Two units always suffice (\<open>flush_fuel_enough\<close>
  below), since a call made while a flush is running returns at once.
\<close>

primrec flush_fuel :: "nat \<Rightarrow> Client \<Rightarrow> Client Promise option" where
  "flush_fuel 0 c = None"
| "flush_fuel (Suc n) c = flush_body (flush_fuel n) c"

definition flush :: "Client \<Rightarrow> Client Promise" where
  "flush c = (case flush_fuel 2 c of Some pr \<Rightarrow> pr | None \<Rightarrow> Rejected c)"

text \<open>
  JavaScript numbers are IEEE-754 doubles. The sum of two whole numbers is their exact
  sum rounded to the nearest double: a significand of 53 bits, a tie going to the even
  significand. Whole numbers up to \<open>2 ^ 53\<close> in magnitude are doubles, so sums in that
  range are exact. \<open>ulp a\<close> is the distance between the doubles around \<open>a\<close>. (Sums
  beyond the largest double, which would be \<open>Infinity\<close>, have no counterpart.)
\<close>

function ulp :: "nat \<Rightarrow> nat" where
  "ulp a = (if a < 2 ^ 53 then 1 else 2 * ulp (a div 2))"
  by pat_completeness auto
termination
  by (relation "measure id") auto

declare ulp.simps [simp del]

definition round_double :: "int \<Rightarrow> int" where
  "round_double y =
     (if \<bar>y\<bar> \<le> 2 ^ 53 then y
      else
        let u = int (ulp (nat \<bar>y\<bar>));
            q = \<bar>y\<bar> div u;
            r = \<bar>y\<bar> mod u;
            m = (if 2 * r < u \<or> (2 * r = u \<and> even q) then q else q + 1)
        in sgn y * (m * u))"

definition js_add :: "int \<Rightarrow> int \<Rightarrow> int" where
  "js_add x y = round_double (x + y)"

text \<open>\<open>tick()\<close>, called by the interval timer once a second.\<close>

definition tick :: "Client \<Rightarrow> Client" where
  "tick c =
     (if js_add (secondsElapsed c) 1 \<ge> flushInterval (config c) then settled (flush c)
      else c\<lparr>secondsElapsed := js_add (secondsElapsed c) 1\<rparr>)"


text \<open>
  \<open>unsubscribeStorageWatchers()\<close>: every unsubscribe function is called inside its own
  \<open>try\<close>; one that throws is logged and the loop goes on.
\<close>

definition unsubscribeStorageWatchers :: "Client \<Rightarrow> Client" where
  "unsubscribeStorageWatchers c =
     (if length (watchers c) > 0 then
        fold (\<lambda>unsubscribe c'. if unsubscribe_throws unsubscribe then log LoggerError c' else c')
          (watchers c) c
      else c)"

text \<open>
  \<open>cleanup()\<close>: the interval timer is cleared when there is a handle, the readiness
  and store watchers are unsubscribed, the app-state listener is removed when there is
  one, and the two flags are set.
\<close>

definition cleanup :: "Client \<Rightarrow> Client" where
  "cleanup c =
     (let c1 = (case flushIntervalTimer c of
                  Some running \<Rightarrow> c\<lparr>flushIntervalTimer := Some False\<rparr>
                | None \<Rightarrow> c);
          c2 = unsubscribeReadinessWatcher c1;
          c3 = unsubscribeStorageWatchers c2;
          c4 = (case appStateSubscription c3 of
                  Some attached \<Rightarrow> c3\<lparr>appStateSubscription := Some False\<rparr>
                | None \<Rightarrow> c3);
          c5 = c4\<lparr>destroyed := True\<rparr>
      in c5\<lparr>isInitialized := False\<rparr>)"

text \<open>
  The constructor: the field initialisers, then the built-in plugins are handed to
  \<open>add\<close>. The instances of \<open>SegmentDestination\<close> and \<open>InjectContext\<close> it creates
  are arguments (their classes are not part of the sources at hand), as are the store
  and the identifier generator.
\<close>

definition fields_init :: "Config \<Rightarrow> Storage \<Rightarrow> (nat \<Rightarrow> string) \<Rightarrow> Client" where
  "fields_init cfg st uuids =
     \<lparr>config = cfg, store = st, secondsElapsed = 0, appState = unknown,
      appStateSubscription = None, flushIntervalTimer = None, watchers = [],
      destroyed = False, isPendingUpload = False, isAddingPlugins = False,
      timeline = (\<lambda>t. []), isStorageReady = False, pluginsToAdd = [],
      isInitialized = False, uuid_source = uuids, uuid_issued = 0, trace = []\<rparr>"

definition SegmentClient :: "Config \<Rightarrow> Storage \<Rightarrow> (nat \<Rightarrow> string) \<Rightarrow> Plugin \<Rightarrow> Plugin \<Rightarrow> Client" where
  "SegmentClient cfg st uuids segmentDestination injectContext =
     (let c = fields_init cfg st uuids;
          c1 = (if autoAddSegmentDestination cfg then add segmentDestination c else c)
      in fold add [injectContext] c1)"

section \<open>Observations on the trace\<close>

text \<open>The events handed to the timeline, in the order of the calls.\<close>

fun payloads :: "Effect list \<Rightarrow> SegmentEvent list" where
  "payloads [] = []"
| "payloads (TimelineProcess e # es) = payload e # payloads es"
| "payloads (_ # es) = payloads es"

text \<open>The plugins handed to \<open>Timeline.add\<close>, in the order of the calls.\<close>

fun registered :: "Effect list \<Rightarrow> Plugin list" where
  "registered [] = []"
| "registered (TimelineAdd p # es) = p # registered es"
| "registered (_ # es) = registered es"

text \<open>The plugins whose \<open>flush()\<close> was called, in the order of the calls.\<close>

fun attempts :: "Effect list \<Rightarrow> Plugin list" where
  "attempts [] = []"
| "attempts (PluginFlush p # es) = p # attempts es"
| "attempts (_ # es) = attempts es"


text \<open>
  The returns of \<open>flush()\<close> in a trace, each with the value of the counter; their
  number is the number of calls of \<open>flush()\<close>.
\<close>

fun flush_returns :: "Effect list \<Rightarrow> int list" where
  "flush_returns [] = []"
| "flush_returns (FlushReturned s # es) = s # flush_returns es"
| "flush_returns (_ # es) = flush_returns es"

text \<open>
  The version and the build that the persisted context holds, as JSON values: undefined
  when the context, its \<open>app\<close> or the field is missing.
\<close>

definition stored_version :: "Client \<Rightarrow> JsonValue" where
  "stored_version c =
     (case store_context (store c) of
        None \<Rightarrow> JUndefined
      | Some p \<Rightarrow>
          (case app_opt p of
             None \<Rightarrow> JUndefined
           | Some a \<Rightarrow> (case version_opt a of None \<Rightarrow> JUndefined | Some v \<Rightarrow> JString v)))"

definition stored_build :: "Client \<Rightarrow> JsonValue" where
  "stored_build c =
     (case store_context (store c) of
        None \<Rightarrow> JUndefined
      | Some p \<Rightarrow>
          (case app_opt p of
             None \<Rightarrow> JUndefined
           | Some a \<Rightarrow> (case build_opt a of None \<Rightarrow> JUndefined | Some b \<Rightarrow> JString b)))"

section \<open>The flush cycle in closed form\<close>

text \<open>
  What the loop over the flush-capable plugins leaves in the trace, and whether it ends
  by a throw: each plugin's call, followed by the returns of the calls of \<open>flush\<close> that
  the plugin makes (the counter being \<open>s\<close>), up to and including the first plugin that
  throws.
\<close>

fun flush_effects :: "int \<Rightarrow> Plugin list \<Rightarrow> Effect list" where
  "flush_effects s [] = []"
| "flush_effects s (p # ps) =
     (case flush_op p of
        None \<Rightarrow> []
      | Some b \<Rightarrow>
          PluginFlush p # replicate (reenters b) (FlushReturned s) @
            (if throws b then [] else flush_effects s ps))"

fun loop_throws :: "Plugin list \<Rightarrow> bool" where
  "loop_throws [] = False"
| "loop_throws (p # ps) =
     (case flush_op p of None \<Rightarrow> True | Some b \<Rightarrow> throws b \<or> loop_throws ps)"

text \<open>
  The plugins whose \<open>flush\<close> is called: those up to and including the first one whose
  \<open>flush\<close> throws.
\<close>

fun attempted :: "Plugin list \<Rightarrow> Plugin list" where
  "attempted [] = []"
| "attempted (p # ps) =
     (case flush_op p of
        None \<Rightarrow> []
      | Some b \<Rightarrow> p # (if throws b then [] else attempted ps))"

text \<open>The calls of \<open>client.flush()\<close> that the plugins of a list make from their own flush.\<close>

fun reentrant_calls :: "Plugin list \<Rightarrow> nat" where
  "reentrant_calls [] = 0"
| "reentrant_calls (p # ps) =
     (case flush_op p of None \<Rightarrow> 0 | Some b \<Rightarrow> reenters b) + reentrant_calls ps"

text \<open>
  The outcome of \<open>flush()\<close> in closed form. A call made while a flush is running, or
  on a destroyed client, only returns; otherwise the counter is set to 0 and, when
  events are buffered, the flush-capable plugins are called in turn.
\<close>

definition flush_outcome :: "Client \<Rightarrow> Client Promise" where
  "flush_outcome c =
     (if isPendingUpload c \<or> destroyed c then Fulfilled (returned c)
      else if store_events (store c) = [] then
        Fulfilled (c\<lparr>secondsElapsed := 0, trace := trace c @ [FlushReturned 0]\<rparr>)
      else
        (if loop_throws (getPluginsWithFlush (timeline c)) then Rejected else Fulfilled)
          (c\<lparr>secondsElapsed := 0,
             trace := trace c @ flush_effects 0 (getPluginsWithFlush (timeline c)) @
               [FlushReturned 0]\<rparr>))"

section \<open>Example inputs\<close>

definition example_config :: Config where
  "example_config =
     \<lparr>writeKey = ''write-key'', flushAt = 20, flushInterval = 30,
      trackAppLifecycleEvents = True, trackDeepLinks = False,
      autoAddSegmentDestination = True\<rparr>"

definition example_store :: Storage where
  "example_store =
     \<lparr>store_events = [],
      store_userInfo = \<lparr>anonymousId = ''anonymous-1'', userId = None, traits = None\<rparr>,
      store_context = None\<rparr>"

definition segmentDestination :: Plugin where
  "segmentDestination = Plugin 0 destination [] (Some (FlushBehaviour 0 False))"

definition injectContext :: Plugin where
  "injectContext = Plugin 1 before [] None"

definition example_client :: Client where
  "example_client =
     SegmentClient example_config example_store (\<lambda>k. replicate (Suc k) CHR ''u'')
       segmentDestination injectContext"

text \<open>
  A client whose store already holds a user with traits, as in the identify test.
\<close>

definition stacy_client :: Client where
  "stacy_client =
     SegmentClient example_config
       (example_store\<lparr>store_userInfo :=
          \<lparr>anonymousId = ''very-anonymous'', userId = Some ''current-user-id'',
           traits = Some [''name'' \<mapsto> JString ''Stacy'', ''age'' \<mapsto> JNumber 30]\<rparr>\<rparr>)
       (\<lambda>k. replicate (Suc k) CHR ''u'') segmentDestination injectContext"

definition example_event :: EnrichedEvent where
  "example_event =
     \<lparr>payload = createTrackEvent ''Button Clicked'' None,
      event_anonymousId = ''anonymous-1'', event_userId = None\<rparr>"

definition failing_destination :: Plugin where
  "failing_destination = Plugin 2 destination [] (Some (FlushBehaviour 0 True))"

definition second_destination :: Plugin where
  "second_destination = Plugin 3 destination [] (Some (FlushBehaviour 0 False))"

text \<open>
  A client with one buffered event whose timeline holds, after the readiness signal,
  the built-in destination, a destination whose flush throws, and one more destination.
\<close>

definition buffered_client :: Client where
  "buffered_client =
     onStorageReady True
       (add second_destination
          (add failing_destination
             (SegmentClient example_config (example_store\<lparr>store_events := [example_event]\<rparr>)
                (\<lambda>k. replicate (Suc k) CHR ''u'') segmentDestination injectContext)))"



text \<open>A plugin that calls \<open>client.flush()\<close> twice from its own flush and returns.\<close>

definition resubmitting_destination :: Plugin where
  "resubmitting_destination = Plugin 5 destination [] (Some (FlushBehaviour 2 False))"

definition resubmitting_client :: Client where
  "resubmitting_client =
     onStorageReady True
       (add second_destination
          (add resubmitting_destination
             (SegmentClient (example_config\<lparr>autoAddSegmentDestination := False\<rparr>)
                (example_store\<lparr>store_events := [example_event]\<rparr>)
                (\<lambda>k. replicate (Suc k) CHR ''u'') segmentDestination injectContext)))"

text \<open>
  A client whose identifier generator returns the same value at every call, as a
  mocked \<open>getUUID\<close> does.
\<close>

definition mocked_client :: Client where
  "mocked_client =
     SegmentClient example_config example_store (\<lambda>k. ''mocked-uuid'')
       segmentDestination injectContext"


text \<open>
  A plugin whose \<open>configure(client)\<close> adds a second plugin to the client.
\<close>

definition nested_enrichment :: Plugin where
  "nested_enrichment = Plugin 11 enrichment [] None"

definition composite_plugin :: Plugin where
  "composite_plugin = Plugin 10 utility [nested_enrichment] None"

section \<open>Auxiliary lemmas\<close>

lemma payloads_append: "payloads (xs @ ys) = payloads xs @ payloads ys"
  by (induction xs rule: payloads.induct) auto

lemma registered_append: "registered (xs @ ys) = registered xs @ registered ys"
  by (induction xs rule: registered.induct) auto

lemma attempts_append: "attempts (xs @ ys) = attempts xs @ attempts ys"
  by (induction xs rule: attempts.induct) auto

lemmas dispatch_defs =
  log_def process_def timeline_process_def applyRawEventData_def userInfo_set_def context_set_def

lemmas example_defs =
  example_client_def SegmentClient_def fields_init_def example_config_def example_store_def
  segmentDestination_def injectContext_def add.simps addPlugin.simps

lemma identify_stores:
  "store_userInfo (store (identify uid userTraits c)) =
     (store_userInfo (store c))
       \<lparr>userId := Some uid,
        traits := Some (spread (traits (store_userInfo (store c))) ++ spread userTraits)\<rparr>"
  by (simp add: identify_def Let_def dispatch_defs)

lemma identify_trace:
  "trace (identify uid userTraits c) =
     trace c @
       [UserInfoSet
          ((store_userInfo (store c))
             \<lparr>userId := Some uid,
              traits := Some (spread (traits (store_userInfo (store c))) ++ spread userTraits)\<rparr>),
        TimelineProcess
          \<lparr>payload =
             createIdentifyEvent (spread (traits (store_userInfo (store c))) ++ spread userTraits),
           event_anonymousId = anonymousId (store_userInfo (store c)),
           event_userId = Some uid\<rparr>,
        LoggerInfo ''IDENTIFY event saved'']"
  by (simp add: identify_def Let_def dispatch_defs)

lemma attempts_replicate_FlushReturned:
  "attempts (replicate k (FlushReturned s) @ es) = attempts es"
  by (induction k) auto

lemma attempts_flush_effects: "attempts (flush_effects s ps) = attempted ps"
  by (induction ps) (auto simp: attempts_replicate_FlushReturned split: option.splits)

lemma attempted_no_throw: "\<not> loop_throws ps \<Longrightarrow> attempted ps = ps"
  by (induction ps) (auto split: option.splits)


lemma flush_fuel_pending:
  "isPendingUpload c \<Longrightarrow> flush_fuel (Suc n) c = Some (Fulfilled (returned c))"
  by (simp add: flush_body_def)

lemma reenter_pending:
  "isPendingUpload c \<Longrightarrow>
   reenter (flush_fuel (Suc n)) k c =
     Some (c\<lparr>trace := trace c @ replicate k (FlushReturned (secondsElapsed c))\<rparr>)"
proof (induction k arbitrary: c)
  case 0
  then show ?case by simp
next
  case (Suc k)
  have "reenter (flush_fuel (Suc n)) (Suc k) c = reenter (flush_fuel (Suc n)) k (returned c)"
    using Suc.prems by (simp add: flush_fuel_pending del: flush_fuel.simps)
  also have "\<dots> = Some ((returned c)\<lparr>trace := trace (returned c) @
      replicate k (FlushReturned (secondsElapsed (returned c)))\<rparr>)"
    using Suc.prems by (intro Suc.IH) (simp add: returned_def log_def)
  also have "\<dots> = Some (c\<lparr>trace := trace c @ replicate (Suc k) (FlushReturned (secondsElapsed c))\<rparr>)"
    by (simp add: returned_def log_def replicate_app_Cons_same)
  finally show ?case .
qed

lemma forEach_flush_pending:
  "isPendingUpload c \<Longrightarrow>
   forEach_flush (flush_fuel (Suc n)) ps c =
     Some ((if loop_throws ps then Inl else Inr)
       (c\<lparr>trace := trace c @ flush_effects (secondsElapsed c) ps\<rparr>))"
proof (induction ps arbitrary: c)
  case Nil
  then show ?case by simp
next
  case (Cons p ps)
  show ?case
  proof (cases "flush_op p")
    case None
    then show ?thesis
      by (cases c) (simp add: plugin_flush_def del: flush_fuel.simps)
  next
    case (Some b)
    let ?c' = "c\<lparr>trace := trace c @ PluginFlush p #
        replicate (reenters b) (FlushReturned (secondsElapsed c))\<rparr>"
    have step: "plugin_flush (flush_fuel (Suc n)) p c = Some (if throws b then Inl ?c' else Inr ?c')"
      using Cons.prems Some
      by (simp add: plugin_flush_def reenter_pending log_def del: flush_fuel.simps)
    have pend: "isPendingUpload ?c'"
      using Cons.prems by simp
    show ?thesis
      using Some step Cons.IH [OF pend] by (simp del: flush_fuel.simps)
  qed
qed

lemma restore_isPendingUpload:
  "\<not> isPendingUpload c \<Longrightarrow> c\<lparr>isPendingUpload := False\<rparr> = c"
  by (cases c) simp

text \<open>
  \<open>flush\<close> returns: with two or more units of fuel the bounded recursion yields the
  closed form, whatever the plugins do.
\<close>

lemma flush_fuel_enough: "flush_fuel (Suc (Suc n)) c = Some (flush_outcome c)"
proof (cases "isPendingUpload c")
  case True
  then show ?thesis
    by (simp add: flush_fuel_pending flush_outcome_def del: flush_fuel.simps)
next
  case False
  note idle = this
  show ?thesis
  proof (cases "destroyed c")
    case True
    then show ?thesis
      using idle by (simp add: flush_body_def flush_outcome_def restore_isPendingUpload)
  next
    case False
    note alive = this
    show ?thesis
    proof (cases "store_events (store c) = []")
      case True
      have "returned (c\<lparr>isPendingUpload := True, secondsElapsed := 0, isPendingUpload := False\<rparr>) =
          c\<lparr>secondsElapsed := 0, trace := trace c @ [FlushReturned 0]\<rparr>"
        using idle by (cases c) (simp add: returned_def log_def)
      then show ?thesis
        using idle alive True by (simp add: flush_body_def flush_outcome_def)
    next
      case False
      let ?run = "c\<lparr>isPendingUpload := True, secondsElapsed := 0\<rparr>"
      let ?ps = "getPluginsWithFlush (timeline c)"
      have loop: "forEach_flush (flush_fuel (Suc n)) ?ps ?run =
          Some ((if loop_throws ?ps then Inl else Inr)
            (?run\<lparr>trace := trace ?run @ flush_effects (secondsElapsed ?run) ?ps\<rparr>))"
        by (rule forEach_flush_pending) simp
      have body: "flush_fuel (Suc (Suc n)) c =
          (case forEach_flush (flush_fuel (Suc n)) ?ps ?run of
             None \<Rightarrow> None
           | Some (Inl c') \<Rightarrow> Some (Rejected (returned (c'\<lparr>isPendingUpload := False\<rparr>)))
           | Some (Inr c') \<Rightarrow> Some (Fulfilled (returned (c'\<lparr>isPendingUpload := False\<rparr>))))"
        using idle alive False
        by (simp add: flush_body_def [of "flush_fuel (Suc n)"] Let_def)
      have done_eq: "returned ((?run\<lparr>trace := trace ?run @ flush_effects (secondsElapsed ?run) ?ps\<rparr>)
            \<lparr>isPendingUpload := False\<rparr>) =
          c\<lparr>secondsElapsed := 0, trace := trace c @ flush_effects 0 ?ps @ [FlushReturned 0]\<rparr>"
        using idle by (cases c) (simp add: returned_def log_def)
      show ?thesis
        unfolding body loop using idle alive False done_eq
        by (simp add: flush_outcome_def)
    qed
  qed
qed

lemma flush_eq_outcome: "flush c = flush_outcome c"
  using flush_fuel_enough [of 0 c] by (simp add: flush_def numeral_2_eq_2)

lemma buffered_client_facts:
  "getPluginsWithFlush (timeline buffered_client) =
     [segmentDestination, failing_destination, second_destination]"
  "store_events (store buffered_client) = [example_event]"
  "\<not> isPendingUpload buffered_client" "\<not> destroyed buffered_client"
  "flushInterval (config buffered_client) = 30" "secondsElapsed buffered_client = 0"
  "trace buffered_client =
     [Configure segmentDestination, TimelineAdd segmentDestination,
      Configure injectContext, TimelineAdd injectContext,
      Configure failing_destination, TimelineAdd failing_destination,
      Configure second_destination, TimelineAdd second_destination]"
  by (simp_all add: buffered_client_def example_defs failing_destination_def
      second_destination_def onStorageReady_def unsubscribeReadinessWatcher_def Let_def
      timeline_add_def log_def getPluginsWithFlush_def)

lemma flush_returns_append: "flush_returns (xs @ ys) = flush_returns xs @ flush_returns ys"
  by (induction xs rule: flush_returns.induct) auto


lemma flush_returns_replicate: "flush_returns (replicate k (FlushReturned s)) = replicate k s"
  by (induction k) auto

lemma flush_returns_flush_effects:
  "flush_returns (flush_effects s ps) = replicate (reentrant_calls (attempted ps)) s"
  by (induction ps)
    (auto simp: flush_returns_append flush_returns_replicate replicate_add split: option.splits)

lemma resubmitting_client_facts:
  "getPluginsWithFlush (timeline resubmitting_client) = [resubmitting_destination, second_destination]"
  "store_events (store resubmitting_client) = [example_event]"
  "\<not> isPendingUpload resubmitting_client" "\<not> destroyed resubmitting_client"
  "attempts (trace resubmitting_client) = []" "flush_returns (trace resubmitting_client) = []"
  by (simp_all add: resubmitting_client_def example_defs resubmitting_destination_def
      second_destination_def onStorageReady_def unsubscribeReadinessWatcher_def Let_def
      timeline_add_def log_def getPluginsWithFlush_def)








lemma payloads_replicate_LoggerError: "payloads (replicate k LoggerError) = []"
  by (induction k) auto

lemma fold_unsubscribe:
  "fold (\<lambda>unsubscribe c'. if unsubscribe_throws unsubscribe then log LoggerError c' else c') us c =
     c\<lparr>trace := trace c @ replicate (length (filter unsubscribe_throws us)) LoggerError\<rparr>"
proof (induction us arbitrary: c)
  case Nil
  show ?case by (cases c) simp
next
  case (Cons u us)
  show ?case
    by (simp add: Cons.IH log_def replicate_app_Cons_same)
qed

text \<open>
  \<open>cleanup()\<close> in closed form: the handles are marked, the flags are set, and the trace
  gains one logger line per unsubscribe function that throws.
\<close>

lemma cleanup_closed:
  "cleanup c =
     c\<lparr>flushIntervalTimer := map_option (\<lambda>running. False) (flushIntervalTimer c),
       appStateSubscription := map_option (\<lambda>attached. False) (appStateSubscription c),
       destroyed := True, isInitialized := False,
       trace := trace c @ replicate (length (filter unsubscribe_throws (watchers c))) LoggerError\<rparr>"
  by (cases c)
    (simp add: cleanup_def unsubscribeReadinessWatcher_def unsubscribeStorageWatchers_def
      fold_unsubscribe Let_def split: option.splits)

lemma js_add_exact: "\<bar>x + y\<bar> \<le> 2 ^ 53 \<Longrightarrow> js_add x y = x + y"
  by (simp add: js_add_def round_double_def)

text \<open>At \<open>2 ^ 53\<close> adding one is lost in the rounding.\<close>

lemma js_add_stuck: "js_add (2 ^ 53) 1 = 2 ^ 53"
proof -
  have "ulp 9007199254740993 = 2 * ulp 4503599627370496"
    by (subst ulp.simps) simp
  also have "ulp 4503599627370496 = 1"
    by (subst ulp.simps) simp
  finally show ?thesis
    by (simp add: js_add_def round_double_def Let_def)
qed

lemma ticks_below_interval:
  "secondsElapsed c = 0 \<Longrightarrow> int k < flushInterval (config c) \<Longrightarrow> int k \<le> 2 ^ 53 \<Longrightarrow>
   (tick ^^ k) c = c\<lparr>secondsElapsed := int k\<rparr>"
proof (induction k)
  case 0
  then show ?case by (cases c) simp
next
  case (Suc k)
  have "(tick ^^ k) c = c\<lparr>secondsElapsed := int k\<rparr>"
    using Suc by simp
  then have "(tick ^^ Suc k) c = tick (c\<lparr>secondsElapsed := int k\<rparr>)"
    by simp
  also have "js_add (int k) 1 = int k + 1"
    using Suc.prems by (intro js_add_exact) simp
  then have "tick (c\<lparr>secondsElapsed := int k\<rparr>) = c\<lparr>secondsElapsed := int (Suc k)\<rparr>"
    using Suc.prems by (simp add: tick_def add.commute)
  finally show ?case .
qed

text \<open>
  With an interval above \<open>2 ^ 53\<close> the counter stops at \<open>2 ^ 53\<close> and no tick ever
  calls \<open>flush\<close>.
\<close>

lemma ticks_stick:
  "secondsElapsed c = 0 \<Longrightarrow> 2 ^ 53 < flushInterval (config c) \<Longrightarrow>
   (tick ^^ k) c = c\<lparr>secondsElapsed := min (int k) (2 ^ 53)\<rparr>"
proof (induction k)
  case 0
  then show ?case by (cases c) simp
next
  case (Suc k)
  define m where "m = min (int k) (2 ^ 53)"
  define m' where "m' = min (int (Suc k)) (2 ^ 53)"
  have "(tick ^^ k) c = c\<lparr>secondsElapsed := m\<rparr>"
    using Suc by (simp add: m_def)
  then have step: "(tick ^^ Suc k) c = tick (c\<lparr>secondsElapsed := m\<rparr>)"
    by simp
  have next_value: "js_add m 1 = m'"
  proof (cases "int k < 2 ^ 53")
    case True
    then have "js_add (int k) 1 = int k + 1"
      by (intro js_add_exact) simp
    then show ?thesis
      using True by (simp add: m_def m'_def min_def)
  next
    case False
    then show ?thesis
      using js_add_stuck by (simp add: m_def m'_def min_def)
  qed
  have "m' \<le> 2 ^ 53"
    by (simp add: m'_def)
  then have "\<not> flushInterval (config c) \<le> m'"
    using Suc.prems(2) by simp
  then have "tick (c\<lparr>secondsElapsed := m\<rparr>) = c\<lparr>secondsElapsed := m'\<rparr>"
    by (simp add: tick_def next_value)
  then show ?case
    using step by (simp add: m'_def)
qed

text \<open>
  What the gate does guarantee: for plugins whose \<open>configure\<close> adds nothing, with at
  least one plugin queued when the signal arrives, the plugins added before and after
  the signal are registered once each, in the order of the \<open>add\<close> calls, and the gate
  ends up open with an empty queue.
\<close>

lemma addPlugin_simple:
  "configure_adds p = [] \<Longrightarrow>
   addPlugin p c = timeline_add p (log (Configure p) c)"
  by (simp add: addPlugin.simps)

lemma drain_simple:
  "\<forall>p \<in> set ps. configure_adds p = [] \<Longrightarrow>
   registered (trace (fold addPlugin ps c)) = registered (trace c) @ ps \<and>
   pluginsToAdd (fold addPlugin ps c) = pluginsToAdd c \<and>
   isStorageReady (fold addPlugin ps c) = isStorageReady c \<and>
   isAddingPlugins (fold addPlugin ps c) = isAddingPlugins c"
proof (induction ps arbitrary: c)
  case Nil
  then show ?case by simp
next
  case (Cons p ps)
  let ?c = "timeline_add p (log (Configure p) c)"
  have step: "fold addPlugin (p # ps) c = fold addPlugin ps ?c"
    using Cons.prems by (simp add: addPlugin_simple)
  have here: "registered (trace ?c) = registered (trace c) @ [p]"
      "pluginsToAdd ?c = pluginsToAdd c" "isStorageReady ?c = isStorageReady c"
      "isAddingPlugins ?c = isAddingPlugins c"
    by (simp_all add: timeline_add_def log_def registered_append)
  show ?case
    unfolding step using Cons.IH [of ?c] Cons.prems by (simp add: here)
qed

lemma queue_simple:
  "\<not> isStorageReady c \<Longrightarrow>
   fold add ps c = c\<lparr>pluginsToAdd := pluginsToAdd c @ ps\<rparr>"
proof (induction ps arbitrary: c)
  case Nil
  then show ?case by (cases c) simp
next
  case (Cons p ps)
  then show ?case by (simp add: add.simps)
qed

lemma live_simple:
  "\<forall>p \<in> set ps. configure_adds p = [] \<Longrightarrow> isStorageReady c \<Longrightarrow>
   registered (trace (fold add ps c)) = registered (trace c) @ ps \<and>
   pluginsToAdd (fold add ps c) = pluginsToAdd c \<and> isStorageReady (fold add ps c)"
proof (induction ps arbitrary: c)
  case Nil
  then show ?case by simp
next
  case (Cons p ps)
  let ?c = "timeline_add p (log (Configure p) c)"
  have step: "fold add (p # ps) c = fold add ps ?c"
    using Cons.prems by (simp add: add.simps addPlugin_simple)
  have here: "registered (trace ?c) = registered (trace c) @ [p]"
      "pluginsToAdd ?c = pluginsToAdd c" "isStorageReady ?c"
    using Cons.prems by (simp_all add: timeline_add_def log_def registered_append)
  show ?case
    unfolding step using Cons.IH [of ?c] Cons.prems here by simp
qed

lemma gate_registers_in_order:
  assumes simple: "\<forall>p \<in> set (earlier @ later). configure_adds p = []"
    and queued: "earlier \<noteq> []"
    and closed: "\<not> isStorageReady c" "\<not> isAddingPlugins c" "pluginsToAdd c = []"
  shows "registered (trace (fold add later (onStorageReady True (fold add earlier c)))) =
           registered (trace c) @ earlier @ later \<and>
         isStorageReady (fold add later (onStorageReady True (fold add earlier c))) \<and>
         pluginsToAdd (fold add later (onStorageReady True (fold add earlier c))) = []"
proof -
  let ?q = "fold add earlier c"
  have q: "?q = c\<lparr>pluginsToAdd := earlier\<rparr>"
    using closed by (simp add: queue_simple)
  let ?d = "fold addPlugin earlier (?q\<lparr>isAddingPlugins := True\<rparr>)"
  have d: "registered (trace ?d) = registered (trace c) @ earlier"
    using drain_simple [of earlier "?q\<lparr>isAddingPlugins := True\<rparr>"] simple by (simp add: q)
  have r: "onStorageReady True ?q =
      ?d\<lparr>pluginsToAdd := [], isStorageReady := True, isAddingPlugins := False\<rparr>"
    using queued closed by (simp add: onStorageReady_def unsubscribeReadinessWatcher_def Let_def q)
  show ?thesis
    unfolding r
    using live_simple [of later "?d\<lparr>pluginsToAdd := [], isStorageReady := True, isAddingPlugins := False\<rparr>"]
      simple d by simp
qed

section \<open>Properties of the client\<close>

subsection \<open>The readiness gate\<close>

text \<open>
  C1 on the code. The constructor queues the two built-in plugins, \<open>add\<close> queues
  \<open>composite_plugin\<close>, then the store signals readiness. While the queue is drained the
  gate is still closed, so the \<open>add\<close> that \<open>composite_plugin\<close> makes from \<open>configure\<close>
  pushes \<open>nested_enrichment\<close> onto the queue; the loop does not visit it, and the queue is
  emptied after the loop. \<open>nested_enrichment\<close> is neither configured nor registered, it
  is in no queue any more, and the gate is open: it is lost. The same \<open>add\<close> after the
  signal registers both plugins.
\<close>

theorem reentrant_add_during_drain_is_lost:
  "pluginsToAdd (add composite_plugin example_client) =
     [segmentDestination, injectContext, composite_plugin] \<and>
   registered (trace (onStorageReady True (add composite_plugin example_client))) =
     [segmentDestination, injectContext, composite_plugin] \<and>
   nested_enrichment \<notin> set (getPlugins None (onStorageReady True (add composite_plugin example_client))) \<and>
   Configure nested_enrichment \<notin> set (trace (onStorageReady True (add composite_plugin example_client))) \<and>
   pluginsToAdd (onStorageReady True (add composite_plugin example_client)) = [] \<and>
   isStorageReady (onStorageReady True (add composite_plugin example_client)) \<and>
   registered (trace (add composite_plugin (onStorageReady True example_client))) =
     [segmentDestination, injectContext, nested_enrichment, composite_plugin]"
  by (simp add: example_defs composite_plugin_def nested_enrichment_def onStorageReady_def
      unsubscribeReadinessWatcher_def Let_def timeline_add_def log_def getPlugins_def)

subsection \<open>Operations after cleanup\<close>

text \<open>
  C2, as stated, fails: \<open>track\<close> has no check of the destroyed flag. After \<open>cleanup()\<close>
  it still builds its event and hands it to the timeline.
\<close>

theorem track_after_cleanup_counterexample:
  "destroyed (cleanup example_client) \<and>
   payloads (trace (cleanup example_client)) = [] \<and>
   payloads (trace (track ''Button Clicked'' None (cleanup example_client))) =
     [createTrackEvent ''Button Clicked'' None] \<and>
   track ''Button Clicked'' None (cleanup example_client) \<noteq> cleanup example_client"
proof -
  have tr: "trace (cleanup example_client) = []"
    and pl: "payloads (trace (track ''Button Clicked'' None (cleanup example_client))) =
      [createTrackEvent ''Button Clicked'' None]"
    and de: "destroyed (cleanup example_client)"
    by (simp_all add: track_def cleanup_closed Let_def dispatch_defs example_defs)
  have "trace (track ''Button Clicked'' None (cleanup example_client)) \<noteq> trace (cleanup example_client)"
    by (simp add: tr track_def Let_def dispatch_defs)
  then have "track ''Button Clicked'' None (cleanup example_client) \<noteq> cleanup example_client"
    by auto
  then show ?thesis
    using tr pl de by simp
qed

text \<open>
  C2, amended. After \<open>cleanup()\<close> the client is destroyed and \<open>flush()\<close> does nothing:
  it returns at its check of the destroyed flag, calls no plugin and changes no field
  (only its return is recorded). \<open>flush\<close> is the one operation with such a check:
  \<open>process\<close>, \<open>track\<close>, \<open>screen\<close>, \<open>group\<close>, \<open>identify\<close>, \<open>alias\<close> and \<open>reset\<close> do
  on a cleaned-up client what they do on a live one: the same event goes to the
  timeline and the same user info goes to the store.
\<close>

theorem operations_after_cleanup:
  "destroyed (cleanup c) \<and>
   flush (cleanup c) = Fulfilled (returned (cleanup c)) \<and>
   payloads (trace (process event (cleanup c))) = payloads (trace c) @ [event] \<and>
   payloads (trace (track eventName options (cleanup c))) =
     payloads (trace c) @ [createTrackEvent eventName options] \<and>
   payloads (trace (screen name options (cleanup c))) =
     payloads (trace c) @ [createScreenEvent name options] \<and>
   payloads (trace (group groupId groupTraits (cleanup c))) =
     payloads (trace c) @ [createGroupEvent groupId groupTraits] \<and>
   payloads (trace (identify uid userTraits (cleanup c))) =
     payloads (trace c) @
       [createIdentifyEvent (spread (traits (store_userInfo (store c))) ++ spread userTraits)] \<and>
   store_userInfo (store (identify uid userTraits (cleanup c))) =
     store_userInfo (store (identify uid userTraits c)) \<and>
   payloads (trace (alias_op newUserId (cleanup c))) =
     payloads (trace c) @
       [createAliasEvent (anonymousId (store_userInfo (store c)))
          (userId (store_userInfo (store c))) newUserId] \<and>
   store_userInfo (store (alias_op newUserId (cleanup c))) =
     store_userInfo (store (alias_op newUserId c)) \<and>
   store_userInfo (store (reset (cleanup c))) = store_userInfo (store (reset c))"
  by (simp add: flush_eq_outcome flush_outcome_def cleanup_closed Let_def dispatch_defs
      track_def screen_def identify_def group_def alias_op_def reset_def getUUID_def
      payloads_append payloads_replicate_LoggerError)

subsection \<open>Failure of a plugin during a flush\<close>

text \<open>
  C3, as stated, fails: \<open>flush\<close> calls the plugins in a bare \<open>forEach\<close>, so a throw
  ends the loop. On \<open>buffered_client\<close> the second destination is flush-capable and
  registered, yet its \<open>flush\<close> is not called, and the promise of \<open>flush\<close> is rejected.
\<close>

theorem flush_isolation_counterexample:
  "store_events (store buffered_client) \<noteq> [] \<and>
   second_destination \<in> set (getPluginsWithFlush (timeline buffered_client)) \<and>
   attempts (trace (settled (flush buffered_client))) = [segmentDestination, failing_destination] \<and>
   second_destination \<notin> set (attempts (trace (settled (flush buffered_client)))) \<and>
   flush buffered_client = Rejected (settled (flush buffered_client))"
  by (simp add: flush_eq_outcome flush_outcome_def buffered_client_facts attempts_append
      segmentDestination_def failing_destination_def second_destination_def)

text \<open>
  C3, amended. During a flush that is neither skipped nor on a destroyed client, with
  a non-empty buffer, the flush-capable plugins are called in the order in which
  \<open>getPluginsWithFlush\<close> lists them, up to and including the first one that throws. Nothing catches or logs the throw: it ends the
  loop and rejects the promise that \<open>flush\<close> returns, and the trace gains the calls
  and returns alone, no logger line. When no plugin throws, every flush-capable plugin
  is called. The in-flight flag is cleared in every case.
\<close>

theorem flush_stops_at_first_throw:
  "(\<not> isPendingUpload c \<and> \<not> destroyed c \<and> store_events (store c) \<noteq> [] \<longrightarrow>
      attempts (trace (settled (flush c))) =
        attempts (trace c) @ attempted (getPluginsWithFlush (timeline c)) \<and>
      trace (settled (flush c)) =
        trace c @ flush_effects 0 (getPluginsWithFlush (timeline c)) @ [FlushReturned 0] \<and>
      (loop_throws (getPluginsWithFlush (timeline c)) \<longrightarrow>
         flush c = Rejected (settled (flush c))) \<and>
      (\<not> loop_throws (getPluginsWithFlush (timeline c)) \<longrightarrow>
         flush c = Fulfilled (settled (flush c)) \<and>
         attempts (trace (settled (flush c))) =
           attempts (trace c) @ getPluginsWithFlush (timeline c))) \<and>
   (\<not> isPendingUpload c \<longrightarrow> \<not> isPendingUpload (settled (flush c)))"
proof -
  have all: "\<not> loop_throws (getPluginsWithFlush (timeline c)) \<Longrightarrow>
      attempted (getPluginsWithFlush (timeline c)) = getPluginsWithFlush (timeline c)"
    by (rule attempted_no_throw)
  show ?thesis
    using all
    by (auto simp: flush_eq_outcome flush_outcome_def attempts_append attempts_flush_effects
        returned_def log_def)
qed

theorem flush_stops_at_first_throw_witness:
  "\<not> isPendingUpload buffered_client \<and> \<not> destroyed buffered_client \<and>
   store_events (store buffered_client) \<noteq> [] \<and>
   loop_throws (getPluginsWithFlush (timeline buffered_client)) \<and>
   attempts (trace (settled (flush buffered_client))) = [segmentDestination, failing_destination] \<and>
   flush buffered_client = Rejected (settled (flush buffered_client)) \<and>
   \<not> isPendingUpload (settled (flush buffered_client)) \<and>
   \<not> isPendingUpload resubmitting_client \<and> \<not> destroyed resubmitting_client \<and>
   store_events (store resubmitting_client) \<noteq> [] \<and>
   \<not> loop_throws (getPluginsWithFlush (timeline resubmitting_client)) \<and>
   attempts (trace (settled (flush resubmitting_client))) =
     [resubmitting_destination, second_destination] \<and>
   flush resubmitting_client = Fulfilled (settled (flush resubmitting_client))"
proof -
  have pre: "\<not> isPendingUpload buffered_client" "\<not> destroyed buffered_client"
      "store_events (store buffered_client) \<noteq> []"
    and thr: "loop_throws (getPluginsWithFlush (timeline buffered_client))"
    and att: "attempts (trace buffered_client) @ attempted (getPluginsWithFlush (timeline buffered_client)) =
        [segmentDestination, failing_destination]"
    by (simp_all add: buffered_client_facts segmentDestination_def failing_destination_def
        second_destination_def)
  have pre': "\<not> isPendingUpload resubmitting_client" "\<not> destroyed resubmitting_client"
      "store_events (store resubmitting_client) \<noteq> []"
    and thr': "\<not> loop_throws (getPluginsWithFlush (timeline resubmitting_client))"
    and att': "attempts (trace resubmitting_client) @ getPluginsWithFlush (timeline resubmitting_client) =
        [resubmitting_destination, second_destination]"
    by (simp_all add: resubmitting_client_facts resubmitting_destination_def second_destination_def)
  have one: "attempts (trace (settled (flush buffered_client))) =
        attempts (trace buffered_client) @ attempted (getPluginsWithFlush (timeline buffered_client))"
      "flush buffered_client = Rejected (settled (flush buffered_client))"
      "\<not> isPendingUpload (settled (flush buffered_client))"
    using flush_stops_at_first_throw [of buffered_client] pre thr by blast+
  have two: "flush resubmitting_client = Fulfilled (settled (flush resubmitting_client))"
      "attempts (trace (settled (flush resubmitting_client))) =
        attempts (trace resubmitting_client) @ getPluginsWithFlush (timeline resubmitting_client)"
    using flush_stops_at_first_throw [of resubmitting_client] pre' thr' by blast+
  show ?thesis
    using pre thr pre' thr' one(2,3) two(1) by (simp add: one(1) att two(2) att')
qed

subsection \<open>Ticks and the elapsed-seconds counter\<close>

text \<open>
  C4, as stated, fails for a destroyed client: \<open>flush\<close> returns at the destroyed check,
  which stands before the reset of the counter. Five ticks at an interval of 30 seconds,
  then \<open>cleanup()\<close>, then \<open>flush()\<close>: the counter is still 5.
\<close>

theorem flush_counter_counterexample:
  "flushInterval (config example_client) = 30 \<and>
   secondsElapsed ((tick ^^ 5) example_client) = 5 \<and>
   destroyed (cleanup ((tick ^^ 5) example_client)) \<and>
   secondsElapsed (settled (flush (cleanup ((tick ^^ 5) example_client)))) = 5"
proof -
  have "(tick ^^ 5) example_client = example_client\<lparr>secondsElapsed := int 5\<rparr>"
    by (rule ticks_below_interval) (simp_all add: example_defs)
  then show ?thesis
    by (simp add: flush_eq_outcome flush_outcome_def cleanup_closed returned_def log_def
        example_defs)
qed

text \<open>
  C4, amended. For a flush interval of n whole seconds with 1 \<le> n \<le> 2^53 and a counter
  at 0, each of the first n - 1 ticks only adds one to the counter (no call of \<open>flush\<close>,
  no other change), and the n-th tick is exactly one call of \<open>flush()\<close>. The bound is
  needed: the counter is a double, at 2^53 adding one no longer changes it, so with an
  interval above 2^53 the counter stops at 2^53 and no tick ever flushes. A call of
  \<open>flush()\<close> on a client that is not destroyed and has no flush in flight leaves the
  counter at 0, whether or not events were buffered and whether or not a plugin threw;
  every call of \<open>flush()\<close> made while it runs is skipped and returns with the counter at
  0 as well. A call that is skipped leaves the counter as it was; on a destroyed client
  that is the value before the call, not 0.
\<close>

theorem tick_flush_interval:
  "(flushInterval (config c) = int n \<and> 1 \<le> n \<and> n \<le> 2 ^ 53 \<and> secondsElapsed c = 0 \<longrightarrow>
      (\<forall>k<n. (tick ^^ k) c = c\<lparr>secondsElapsed := int k\<rparr>) \<and>
      (tick ^^ n) c = settled (flush (c\<lparr>secondsElapsed := int n - 1\<rparr>))) \<and>
   (2 ^ 53 < flushInterval (config c) \<and> secondsElapsed c = 0 \<longrightarrow>
      (\<forall>k. (tick ^^ k) c = c\<lparr>secondsElapsed := min (int k) (2 ^ 53)\<rparr>)) \<and>
   (\<not> destroyed c \<and> \<not> isPendingUpload c \<longrightarrow>
      secondsElapsed (settled (flush c)) = 0 \<and>
      flush_returns (trace (settled (flush c))) =
        flush_returns (trace c) @
          replicate
            (Suc (if store_events (store c) = [] then 0
                  else reentrant_calls (attempted (getPluginsWithFlush (timeline c))))) 0) \<and>
   (destroyed c \<or> isPendingUpload c \<longrightarrow>
      flush c = Fulfilled (returned c) \<and>
      secondsElapsed (settled (flush c)) = secondsElapsed c)"
proof -
  have ticks: "(tick ^^ n) c = settled (flush (c\<lparr>secondsElapsed := int n - 1\<rparr>))"
    if fi: "flushInterval (config c) = int n" and pos: "1 \<le> n" and bound: "n \<le> 2 ^ 53"
      and zero: "secondsElapsed c = 0"
  proof -
    obtain m where n: "n = Suc m"
      using pos by (cases n) auto
    have small: "int m + 1 \<le> 2 ^ 53"
      using bound n by simp
    have "(tick ^^ m) c = c\<lparr>secondsElapsed := int m\<rparr>"
      using fi zero n small by (intro ticks_below_interval) auto
    then have "(tick ^^ n) c = tick (c\<lparr>secondsElapsed := int m\<rparr>)"
      using n by simp
    also have "js_add (int m) 1 = int m + 1"
      using small by (intro js_add_exact) simp
    then have "tick (c\<lparr>secondsElapsed := int m\<rparr>) = settled (flush (c\<lparr>secondsElapsed := int n - 1\<rparr>))"
      using fi n by (simp add: tick_def)
    finally show ?thesis .
  qed
  have below: "\<forall>k<n. (tick ^^ k) c = c\<lparr>secondsElapsed := int k\<rparr>"
    if fi: "flushInterval (config c) = int n" and bound: "n \<le> 2 ^ 53"
      and zero: "secondsElapsed c = 0"
  proof (intro allI impI)
    fix k
    assume k: "k < n"
    have "k \<le> 2 ^ 53"
      using k bound by simp
    then have "int k \<le> 2 ^ 53"
      by simp
    then show "(tick ^^ k) c = c\<lparr>secondsElapsed := int k\<rparr>"
      using fi zero k by (intro ticks_below_interval) auto
  qed
  have stuck: "\<forall>k. (tick ^^ k) c = c\<lparr>secondsElapsed := min (int k) (2 ^ 53)\<rparr>"
    if big: "2 ^ 53 < flushInterval (config c)" and zero: "secondsElapsed c = 0"
    using ticks_stick [OF zero big] by blast
  have "replicate k (0::int) @ [0] = 0 # replicate k 0" for k
    by (simp add: replicate_append_same)
  then have calls: "(\<not> destroyed c \<and> \<not> isPendingUpload c \<longrightarrow>
      secondsElapsed (settled (flush c)) = 0 \<and>
      flush_returns (trace (settled (flush c))) =
        flush_returns (trace c) @
          replicate
            (Suc (if store_events (store c) = [] then 0
                  else reentrant_calls (attempted (getPluginsWithFlush (timeline c))))) 0) \<and>
   (destroyed c \<or> isPendingUpload c \<longrightarrow>
      flush c = Fulfilled (returned c) \<and>
      secondsElapsed (settled (flush c)) = secondsElapsed c)"
    by (auto simp: flush_eq_outcome flush_outcome_def returned_def log_def flush_returns_append
        flush_returns_flush_effects)
  show ?thesis
    using ticks below stuck calls by blast
qed

theorem tick_flush_interval_witness:
  "flushInterval (config buffered_client) = int 30 \<and> (1::nat) \<le> 30 \<and> (30::nat) \<le> 2 ^ 53 \<and>
   secondsElapsed buffered_client = 0 \<and>
   (tick ^^ 29) buffered_client = buffered_client\<lparr>secondsElapsed := 29\<rparr> \<and>
   (tick ^^ 30) buffered_client = settled (flush (buffered_client\<lparr>secondsElapsed := 29\<rparr>)) \<and>
   2 ^ 53 < flushInterval (config (buffered_client\<lparr>config := example_config\<lparr>flushInterval := 2 ^ 53 + 2\<rparr>\<rparr>)) \<and>
   secondsElapsed (buffered_client\<lparr>config := example_config\<lparr>flushInterval := 2 ^ 53 + 2\<rparr>\<rparr>) = 0 \<and>
   (tick ^^ (2 ^ 53 + 2)) (buffered_client\<lparr>config := example_config\<lparr>flushInterval := 2 ^ 53 + 2\<rparr>\<rparr>) =
     buffered_client\<lparr>config := example_config\<lparr>flushInterval := 2 ^ 53 + 2\<rparr>, secondsElapsed := 2 ^ 53\<rparr> \<and>
   \<not> destroyed buffered_client \<and> \<not> isPendingUpload buffered_client \<and>
   secondsElapsed (settled (flush buffered_client)) = 0 \<and>
   destroyed (cleanup buffered_client) \<and>
   secondsElapsed (settled (flush (cleanup buffered_client))) = secondsElapsed (cleanup buffered_client) \<and>
   \<not> destroyed resubmitting_client \<and> \<not> isPendingUpload resubmitting_client \<and>
   flush_returns (trace (settled (flush resubmitting_client))) = [0, 0, 0]"
proof -
  let ?slow = "buffered_client\<lparr>config := example_config\<lparr>flushInterval := 2 ^ 53 + 2\<rparr>\<rparr>"
  have pre: "flushInterval (config buffered_client) = int 30" "(1::nat) \<le> 30"
      "(30::nat) \<le> 2 ^ 53" "secondsElapsed buffered_client = 0"
    by (simp_all add: buffered_client_facts)
  have live: "\<not> destroyed buffered_client" "\<not> isPendingUpload buffered_client"
    by (simp_all add: buffered_client_facts)
  have gone: "destroyed (cleanup buffered_client)"
    by (simp add: cleanup_closed)
  have below: "\<forall>k<30. (tick ^^ k) buffered_client = buffered_client\<lparr>secondsElapsed := int k\<rparr>"
    and nth: "(tick ^^ 30) buffered_client =
        settled (flush (buffered_client\<lparr>secondsElapsed := int 30 - 1\<rparr>))"
    using tick_flush_interval [of buffered_client 30] pre by blast+
  have before: "(tick ^^ 29) buffered_client = buffered_client\<lparr>secondsElapsed := int 29\<rparr>"
    using below by simp
  have slow: "2 ^ 53 < flushInterval (config ?slow)" "secondsElapsed ?slow = 0"
    by (simp_all add: buffered_client_facts)
  have "\<forall>k. (tick ^^ k) ?slow = ?slow\<lparr>secondsElapsed := min (int k) (2 ^ 53)\<rparr>"
    using tick_flush_interval [of ?slow 30] slow by blast
  then have "(tick ^^ (2 ^ 53 + 2)) ?slow =
      ?slow\<lparr>secondsElapsed := min (int (2 ^ 53 + 2)) (2 ^ 53)\<rparr>"
    by (rule spec)
  then have stuck: "(tick ^^ (2 ^ 53 + 2)) ?slow = ?slow\<lparr>secondsElapsed := 2 ^ 53\<rparr>"
    by (simp add: min_def)
  have zero: "secondsElapsed (settled (flush buffered_client)) = 0"
    using tick_flush_interval [of buffered_client 30] live by blast
  have kept: "secondsElapsed (settled (flush (cleanup buffered_client))) =
      secondsElapsed (cleanup buffered_client)"
    using tick_flush_interval [of "cleanup buffered_client" 30] gone by blast
  have live': "\<not> destroyed resubmitting_client" "\<not> isPendingUpload resubmitting_client"
    and calls: "flush_returns (trace resubmitting_client) @
        replicate
          (Suc (if store_events (store resubmitting_client) = [] then 0
                else reentrant_calls (attempted (getPluginsWithFlush (timeline resubmitting_client))))) 0 =
        [0, 0, 0]"
    by (simp_all add: resubmitting_client_facts resubmitting_destination_def second_destination_def
        eval_nat_numeral)
  have inner: "flush_returns (trace (settled (flush resubmitting_client))) =
      flush_returns (trace resubmitting_client) @
        replicate
          (Suc (if store_events (store resubmitting_client) = [] then 0
                else reentrant_calls (attempted (getPluginsWithFlush (timeline resubmitting_client))))) 0"
    using tick_flush_interval [of resubmitting_client 30] live' by blast
  have three: "flush_returns (trace (settled (flush resubmitting_client))) = [0, 0, 0]"
    unfolding inner by (rule calls)
  show ?thesis
    using pre live gone before nth slow stuck zero kept live' three by simp
qed

subsection \<open>The in-flight guard\<close>




subsection \<open>identify\<close>

text \<open>
  C6, as stated, fails when traits are stored before the first call: the first call
  merges its traits over the stored ones, so the keys stored before persist too. On
  \<open>stacy_client\<close>, \<open>identify(u1, {a:0, b:2})\<close> then \<open>identify(u2, {a:1})\<close> leaves the
  key \<open>name\<close> in the stored traits, which \<open>{a:0, b:2}\<close> overridden by \<open>{a:1}\<close> lacks.
\<close>

theorem identify_merge_counterexample:
  "the (traits (store_userInfo (store
      (identify ''u2'' (Some [''a'' \<mapsto> JNumber 1])
        (identify ''u1'' (Some [''a'' \<mapsto> JNumber 0, ''b'' \<mapsto> JNumber 2]) stacy_client))))) ''name'' =
     Some (JString ''Stacy'') \<and>
   ([''a'' \<mapsto> JNumber 0, ''b'' \<mapsto> JNumber 2] ++ [''a'' \<mapsto> JNumber 1]) ''name'' = None \<and>
   traits (store_userInfo (store
      (identify ''u2'' (Some [''a'' \<mapsto> JNumber 1])
        (identify ''u1'' (Some [''a'' \<mapsto> JNumber 0, ''b'' \<mapsto> JNumber 2]) stacy_client)))) \<noteq>
     Some ([''a'' \<mapsto> JNumber 0, ''b'' \<mapsto> JNumber 2] ++ [''a'' \<mapsto> JNumber 1])"
proof -
  let ?c = "identify ''u2'' (Some [''a'' \<mapsto> JNumber 1])
        (identify ''u1'' (Some [''a'' \<mapsto> JNumber 0, ''b'' \<mapsto> JNumber 2]) stacy_client)"
  let ?m = "[''a'' \<mapsto> JNumber 0, ''b'' \<mapsto> JNumber 2] ++ [''a'' \<mapsto> JNumber 1]"
  have stored: "the (traits (store_userInfo (store ?c))) ''name'' = Some (JString ''Stacy'')"
    by (simp add: identify_def Let_def dispatch_defs spread_def stacy_client_def
        SegmentClient_def fields_init_def example_config_def example_store_def map_add_def
        add.simps)
  have merged: "?m ''name'' = None"
    by (simp add: map_add_def)
  have "traits (store_userInfo (store ?c)) \<noteq> Some ?m"
  proof
    assume "traits (store_userInfo (store ?c)) = Some ?m"
    then have "the (traits (store_userInfo (store ?c))) ''name'' = ?m ''name''"
      by simp
    then show False
      unfolding stored merged by simp
  qed
  then show ?thesis
    using stored merged by simp
qed

text \<open>
  C6, amended. After \<open>identify(u1, t1)\<close> then \<open>identify(u2, t2)\<close> the stored traits are
  the traits stored before the first call, overridden key by key with \<open>t1\<close> and then with
  \<open>t2\<close> (a key of \<open>t2\<close> wins, else a key of \<open>t1\<close>, else the stored key persists); they are
  \<open>t1\<close> overridden with \<open>t2\<close> when no traits were stored before. The stored user
  identifier is \<open>u2\<close>. The second call first writes the merged state to the store and
  then hands the identify event to the timeline; the event built by the call carries
  the merged traits and nothing else, the user identifier is attached from the store.
\<close>

theorem identify_twice_merges:
  "traits (store_userInfo (store (identify u2 t2 (identify u1 t1 c)))) =
     Some (spread (traits (store_userInfo (store c))) ++ spread t1 ++ spread t2) \<and>
   (\<forall>k. (spread (traits (store_userInfo (store c))) ++ spread t1 ++ spread t2) k =
      (case spread t2 k of
         Some v \<Rightarrow> Some v
       | None \<Rightarrow>
           (case spread t1 k of
              Some v \<Rightarrow> Some v
            | None \<Rightarrow> spread (traits (store_userInfo (store c))) k))) \<and>
   (traits (store_userInfo (store c)) = None \<longrightarrow>
      traits (store_userInfo (store (identify u2 t2 (identify u1 t1 c)))) =
        Some (spread t1 ++ spread t2)) \<and>
   userId (store_userInfo (store (identify u2 t2 (identify u1 t1 c)))) = Some u2 \<and>
   trace (identify u2 t2 (identify u1 t1 c)) =
     trace (identify u1 t1 c) @
       [UserInfoSet
          \<lparr>anonymousId = anonymousId (store_userInfo (store c)), userId = Some u2,
           traits = Some (spread (traits (store_userInfo (store c))) ++ spread t1 ++ spread t2)\<rparr>,
        TimelineProcess
          \<lparr>payload =
             createIdentifyEvent (spread (traits (store_userInfo (store c))) ++ spread t1 ++ spread t2),
           event_anonymousId = anonymousId (store_userInfo (store c)),
           event_userId = Some u2\<rparr>,
        LoggerInfo ''IDENTIFY event saved'']"
proof -
  let ?t0 = "spread (traits (store_userInfo (store c)))"
  have first: "store_userInfo (store (identify u1 t1 c)) =
      (store_userInfo (store c))\<lparr>userId := Some u1, traits := Some (?t0 ++ spread t1)\<rparr>"
    by (simp add: identify_stores)
  have second: "store_userInfo (store (identify u2 t2 (identify u1 t1 c))) =
      (store_userInfo (store c))\<lparr>userId := Some u2, traits := Some (?t0 ++ spread t1 ++ spread t2)\<rparr>"
    by (simp add: identify_stores first spread_def)
  have keys: "(?t0 ++ spread t1 ++ spread t2) k =
      (case spread t2 k of Some v \<Rightarrow> Some v
       | None \<Rightarrow> (case spread t1 k of Some v \<Rightarrow> Some v | None \<Rightarrow> ?t0 k))" for k
    by (simp add: map_add_def split: option.splits)
  have fresh: "traits (store_userInfo (store c)) = None \<Longrightarrow> ?t0 = Map.empty"
    by (simp add: spread_def)
  have tr: "trace (identify u2 t2 (identify u1 t1 c)) =
     trace (identify u1 t1 c) @
       [UserInfoSet
          \<lparr>anonymousId = anonymousId (store_userInfo (store c)), userId = Some u2,
           traits = Some (?t0 ++ spread t1 ++ spread t2)\<rparr>,
        TimelineProcess
          \<lparr>payload = createIdentifyEvent (?t0 ++ spread t1 ++ spread t2),
           event_anonymousId = anonymousId (store_userInfo (store c)),
           event_userId = Some u2\<rparr>,
        LoggerInfo ''IDENTIFY event saved'']"
    unfolding identify_trace [of u2 t2 "identify u1 t1 c"] first
    by (cases "store_userInfo (store c)") (simp add: spread_def)
  show ?thesis
    using keys fresh tr by (auto simp: second)
qed

theorem identify_twice_merges_witness:
  "traits (store_userInfo (store example_client)) = None \<and>
   traits (store_userInfo (store
      (identify ''u2'' (Some [''a'' \<mapsto> JNumber 1])
        (identify ''u1'' (Some [''a'' \<mapsto> JNumber 0, ''b'' \<mapsto> JNumber 2]) example_client)))) =
     Some ([''a'' \<mapsto> JNumber 0, ''b'' \<mapsto> JNumber 2] ++ [''a'' \<mapsto> JNumber 1]) \<and>
   ([''a'' \<mapsto> JNumber 0, ''b'' \<mapsto> JNumber 2] ++ [''a'' \<mapsto> JNumber 1]) ''a'' = Some (JNumber 1) \<and>
   ([''a'' \<mapsto> JNumber 0, ''b'' \<mapsto> JNumber 2] ++ [''a'' \<mapsto> JNumber 1]) ''b'' = Some (JNumber 2) \<and>
   userId (store_userInfo (store
      (identify ''u2'' (Some [''a'' \<mapsto> JNumber 1])
        (identify ''u1'' (Some [''a'' \<mapsto> JNumber 0, ''b'' \<mapsto> JNumber 2]) example_client)))) = Some ''u2''"
proof -
  let ?t1 = "Some [''a'' \<mapsto> JNumber 0, ''b'' \<mapsto> JNumber 2]"
  let ?t2 = "Some [''a'' \<mapsto> JNumber 1]"
  have fresh: "traits (store_userInfo (store example_client)) = None"
    by (simp add: example_defs)
  have inst: "traits (store_userInfo (store (identify ''u2'' ?t2 (identify ''u1'' ?t1 example_client)))) =
        Some (spread ?t1 ++ spread ?t2)"
      "userId (store_userInfo (store (identify ''u2'' ?t2 (identify ''u1'' ?t1 example_client)))) = Some ''u2''"
    using identify_twice_merges [of "''u2''" ?t2 "''u1''" ?t1 example_client] fresh by blast+
  show ?thesis
    using fresh inst by (simp add: spread_def map_add_def)
qed

subsection \<open>alias\<close>

text \<open>
  C7. \<open>alias(newUserId)\<close> reads the anonymous and the user identifier before it writes
  the store: the event it hands to the timeline is built from the identifiers stored
  before the call and from \<open>newUserId\<close>, so its old-user-id field is the user identifier
  stored before the call (and differs from \<open>newUserId\<close> whenever that one did); the
  store is written next, with only the user identifier replaced by \<open>newUserId\<close>, and
  the event is dispatched after that.
\<close>

theorem alias_captures_before_overwrite:
  "payloads (trace (alias_op newUserId c)) =
     payloads (trace c) @
       [createAliasEvent (anonymousId (store_userInfo (store c)))
          (userId (store_userInfo (store c))) newUserId] \<and>
   alias_old_user_id (last (payloads (trace (alias_op newUserId c)))) =
     userId (store_userInfo (store c)) \<and>
   (userId (store_userInfo (store c)) \<noteq> Some newUserId \<longrightarrow>
      alias_old_user_id (last (payloads (trace (alias_op newUserId c)))) \<noteq> Some newUserId) \<and>
   store_userInfo (store (alias_op newUserId c)) =
     (store_userInfo (store c))\<lparr>userId := Some newUserId\<rparr> \<and>
   trace (alias_op newUserId c) =
     trace c @
       [UserInfoSet ((store_userInfo (store c))\<lparr>userId := Some newUserId\<rparr>),
        TimelineProcess
          \<lparr>payload = createAliasEvent (anonymousId (store_userInfo (store c)))
             (userId (store_userInfo (store c))) newUserId,
           event_anonymousId = anonymousId (store_userInfo (store c)),
           event_userId = Some newUserId\<rparr>,
        LoggerInfo ''ALIAS event saved'']"
  by (simp add: alias_op_def Let_def dispatch_defs payloads_append createAliasEvent_def)

theorem alias_captures_before_overwrite_witness:
  "userId (store_userInfo (store (identify ''old-user'' None example_client))) \<noteq> Some ''new-user'' \<and>
   alias_old_user_id (last (payloads (trace
       (alias_op ''new-user'' (identify ''old-user'' None example_client))))) = Some ''old-user'' \<and>
   alias_old_user_id (last (payloads (trace
       (alias_op ''new-user'' (identify ''old-user'' None example_client))))) \<noteq> Some ''new-user'' \<and>
   userId (store_userInfo (store
       (alias_op ''new-user'' (identify ''old-user'' None example_client)))) = Some ''new-user''"
proof -
  let ?c = "identify ''old-user'' None example_client"
  have pre: "userId (store_userInfo (store ?c)) = Some ''old-user''"
    by (simp add: example_defs identify_def Let_def dispatch_defs)
  have inst: "alias_old_user_id (last (payloads (trace (alias_op ''new-user'' ?c)))) =
        userId (store_userInfo (store ?c))"
      "store_userInfo (store (alias_op ''new-user'' ?c)) =
        (store_userInfo (store ?c))\<lparr>userId := Some ''new-user''\<rparr>"
    using alias_captures_before_overwrite [of "''new-user''" ?c] by blast+
  show ?thesis
    by (simp add: inst pre)
qed

subsection \<open>reset\<close>

text \<open>
  C8, as stated, fails in its "different from the prior value": \<open>reset()\<close> stores
  whatever the generator returns and compares nothing. With a generator that returns
  the same value at every call (as a mocked \<open>getUUID\<close> does) the second \<open>reset()\<close>
  leaves the anonymous identifier as the first one set it.
\<close>

theorem reset_fresh_identifier_counterexample:
  "anonymousId (store_userInfo (store (reset mocked_client))) = ''mocked-uuid'' \<and>
   anonymousId (store_userInfo (store (reset (reset mocked_client)))) = ''mocked-uuid'' \<and>
   anonymousId (store_userInfo (store (reset (reset mocked_client)))) =
     anonymousId (store_userInfo (store (reset mocked_client)))"
  by (simp add: mocked_client_def SegmentClient_def fields_init_def example_config_def
      example_store_def segmentDestination_def injectContext_def add.simps reset_def
      getUUID_def Let_def dispatch_defs)

text \<open>
  C8, amended. \<open>reset()\<close> stores the identifier that the generator issues next as the
  anonymous identifier, and the generator moves on by one; it clears the user
  identifier and the traits, and the buffered events, the timeline and the queue of
  pending plugins are as before. The \<open>reset\<close> reducer of the userInfo slice builds the
  same state. \<open>reset()\<close> itself does not compare the new identifier with the prior one:
  the two differ when the generator never issues the same identifier twice and the
  prior one was issued by it earlier, so then two resets in a row give two different
  identifiers.
\<close>

theorem reset_frame:
  "anonymousId (store_userInfo (store (reset c))) = uuid_source c (uuid_issued c) \<and>
   uuid_issued (reset c) = Suc (uuid_issued c) \<and>
   uuid_source (reset c) = uuid_source c \<and>
   userId (store_userInfo (store (reset c))) = None \<and>
   traits (store_userInfo (store (reset c))) = None \<and>
   store_userInfo (store (reset c)) = reducers_reset (fst (getUUID c)) \<and>
   store_events (store (reset c)) = store_events (store c) \<and>
   timeline (reset c) = timeline c \<and>
   pluginsToAdd (reset c) = pluginsToAdd c \<and>
   (inj (uuid_source c) \<and>
    (\<exists>j<uuid_issued c. anonymousId (store_userInfo (store c)) = uuid_source c j) \<longrightarrow>
      anonymousId (store_userInfo (store (reset c))) \<noteq> anonymousId (store_userInfo (store c))) \<and>
   (inj (uuid_source c) \<longrightarrow>
      anonymousId (store_userInfo (store (reset (reset c)))) \<noteq>
        anonymousId (store_userInfo (store (reset c))))"
proof -
  have frame: "anonymousId (store_userInfo (store (reset c))) = uuid_source c (uuid_issued c)"
      "uuid_issued (reset c) = Suc (uuid_issued c)"
      "uuid_source (reset c) = uuid_source c"
      "userId (store_userInfo (store (reset c))) = None"
      "traits (store_userInfo (store (reset c))) = None"
      "store_userInfo (store (reset c)) = reducers_reset (fst (getUUID c))"
      "store_events (store (reset c)) = store_events (store c)"
      "timeline (reset c) = timeline c"
      "pluginsToAdd (reset c) = pluginsToAdd c" for c
    by (simp_all add: reset_def getUUID_def Let_def dispatch_defs reducers_reset_def)
  have earlier: "anonymousId (store_userInfo (store (reset c))) \<noteq> anonymousId (store_userInfo (store c))"
    if once: "inj (uuid_source c)"
      and issued: "\<exists>j<uuid_issued c. anonymousId (store_userInfo (store c)) = uuid_source c j"
  proof -
    obtain j where j: "j < uuid_issued c"
      and old: "anonymousId (store_userInfo (store c)) = uuid_source c j"
      using issued by blast
    have "uuid_source c (uuid_issued c) \<noteq> uuid_source c j"
      using once j by (auto dest: injD)
    then show ?thesis
      by (simp add: frame(1) old)
  qed
  have twice: "anonymousId (store_userInfo (store (reset (reset c)))) \<noteq>
      anonymousId (store_userInfo (store (reset c)))"
    if once: "inj (uuid_source c)"
  proof -
    have "uuid_source c (Suc (uuid_issued c)) \<noteq> uuid_source c (uuid_issued c)"
      using once by (auto dest: injD)
    then show ?thesis
      by (simp add: frame(1,2,3))
  qed
  show ?thesis
    using frame [of c] earlier twice by blast
qed

theorem reset_frame_witness:
  "inj (uuid_source (identify ''user-1'' (Some [''plan'' \<mapsto> JString ''pro'']) example_client)) \<and>
   anonymousId (store_userInfo (store (identify ''user-1'' (Some [''plan'' \<mapsto> JString ''pro''])
       example_client))) = ''anonymous-1'' \<and>
   anonymousId (store_userInfo (store (reset
       (identify ''user-1'' (Some [''plan'' \<mapsto> JString ''pro'']) example_client)))) = ''u'' \<and>
   userId (store_userInfo (store (reset
       (identify ''user-1'' (Some [''plan'' \<mapsto> JString ''pro'']) example_client)))) = None \<and>
   traits (store_userInfo (store (reset
       (identify ''user-1'' (Some [''plan'' \<mapsto> JString ''pro'']) example_client)))) = None \<and>
   pluginsToAdd (reset (identify ''user-1'' (Some [''plan'' \<mapsto> JString ''pro'']) example_client)) =
     [segmentDestination, injectContext] \<and>
   inj (uuid_source (reset (identify ''user-1'' (Some [''plan'' \<mapsto> JString ''pro'']) example_client))) \<and>
   (\<exists>j<uuid_issued (reset (identify ''user-1'' (Some [''plan'' \<mapsto> JString ''pro'']) example_client)).
      anonymousId (store_userInfo (store (reset
        (identify ''user-1'' (Some [''plan'' \<mapsto> JString ''pro'']) example_client)))) =
      uuid_source (reset (identify ''user-1'' (Some [''plan'' \<mapsto> JString ''pro'']) example_client)) j) \<and>
   anonymousId (store_userInfo (store (reset (reset
       (identify ''user-1'' (Some [''plan'' \<mapsto> JString ''pro'']) example_client))))) = ''uu'' \<and>
   anonymousId (store_userInfo (store (reset (reset
       (identify ''user-1'' (Some [''plan'' \<mapsto> JString ''pro'']) example_client))))) \<noteq>
     anonymousId (store_userInfo (store (reset
       (identify ''user-1'' (Some [''plan'' \<mapsto> JString ''pro'']) example_client))))"
proof -
  let ?c = "identify ''user-1'' (Some [''plan'' \<mapsto> JString ''pro'']) example_client"
  have source: "uuid_source ?c = (\<lambda>k. replicate (Suc k) CHR ''u'')"
    and issued: "uuid_issued ?c = 0"
    and anon: "anonymousId (store_userInfo (store ?c)) = ''anonymous-1''"
    and queue: "pluginsToAdd ?c = [segmentDestination, injectContext]"
    by (simp_all add: example_defs identify_def Let_def dispatch_defs)
  have once: "inj (uuid_source ?c)"
    unfolding source by (simp add: inj_def)
  have first: "anonymousId (store_userInfo (store (reset ?c))) = uuid_source ?c (uuid_issued ?c)"
      "uuid_issued (reset ?c) = Suc (uuid_issued ?c)"
      "uuid_source (reset ?c) = uuid_source ?c"
      "userId (store_userInfo (store (reset ?c))) = None"
      "traits (store_userInfo (store (reset ?c))) = None"
      "pluginsToAdd (reset ?c) = pluginsToAdd ?c"
    using reset_frame [of ?c] by blast+
  have once': "inj (uuid_source (reset ?c))"
    using once by (simp add: first(3))
  have earlier: "\<exists>j<uuid_issued (reset ?c).
      anonymousId (store_userInfo (store (reset ?c))) = uuid_source (reset ?c) j"
    by (rule exI [of _ 0]) (simp add: first(1,2,3) issued)
  have second: "anonymousId (store_userInfo (store (reset (reset ?c)))) =
        uuid_source (reset ?c) (uuid_issued (reset ?c))"
      "anonymousId (store_userInfo (store (reset (reset ?c)))) \<noteq>
        anonymousId (store_userInfo (store (reset ?c)))"
    using reset_frame [of "reset ?c"] once' earlier by blast+
  have ids: "anonymousId (store_userInfo (store (reset ?c))) = ''u''"
      "anonymousId (store_userInfo (store (reset (reset ?c)))) = ''uu''"
    by (simp_all add: first(1,2,3) second(1) source issued)
  show ?thesis
    using once once' earlier second(2) anon first(4,5) by (simp add: ids first(6) queue)
qed

subsection \<open>The startup check\<close>

text \<open>
  C9. The startup check. With tracking enabled: no persisted context gives the track
  event named Application Installed with the current version and build, then
  Application Opened with from_background = false and the current version and build; a
  persisted context whose app version differs from the current one gives Application
  Updated with the current and the previous version and build, then Application Opened;
  an unchanged version gives Application Opened alone. A persisted context that holds
  no \<open>app\<close> at all (a partial context written before the first check) is treated as no
  context: Installed, then Opened. With tracking disabled nothing is handed to the
  timeline. In every case the store holds the new context afterwards.
\<close>

theorem checkInstalledVersion_startup:
  "(trackAppLifecycleEvents (config c) \<longrightarrow>
      (store_context (store c) = None \<longrightarrow>
          payloads (trace (checkInstalledVersion context c)) =
            payloads (trace c) @
              [TrackEvent ''Application Installed''
                 (Some [''version'' \<mapsto> JString (version (app context)),
                        ''build'' \<mapsto> JString (build (app context))]),
               TrackEvent ''Application Opened''
                 (Some [''from_background'' \<mapsto> JBool False,
                        ''version'' \<mapsto> JString (version (app context)),
                        ''build'' \<mapsto> JString (build (app context))])]) \<and>
      (\<forall>p. store_context (store c) = Some p \<and> app_opt p = None \<longrightarrow>
          payloads (trace (checkInstalledVersion context c)) =
            payloads (trace c) @
              [TrackEvent ''Application Installed''
                 (Some [''version'' \<mapsto> JString (version (app context)),
                        ''build'' \<mapsto> JString (build (app context))]),
               TrackEvent ''Application Opened''
                 (Some [''from_background'' \<mapsto> JBool False,
                        ''version'' \<mapsto> JString (version (app context)),
                        ''build'' \<mapsto> JString (build (app context))])]) \<and>
      (\<forall>p a. store_context (store c) = Some p \<and> app_opt p = Some a \<and>
             version_opt a \<noteq> Some (version (app context)) \<longrightarrow>
          payloads (trace (checkInstalledVersion context c)) =
            payloads (trace c) @
              [TrackEvent ''Application Updated''
                 (Some [''version'' \<mapsto> JString (version (app context)),
                        ''build'' \<mapsto> JString (build (app context)),
                        ''previous_version'' \<mapsto>
                          (case version_opt a of None \<Rightarrow> JUndefined | Some v \<Rightarrow> JString v),
                        ''previous_build'' \<mapsto>
                          (case build_opt a of None \<Rightarrow> JUndefined | Some b \<Rightarrow> JString b)]),
               TrackEvent ''Application Opened''
                 (Some [''from_background'' \<mapsto> JBool False,
                        ''version'' \<mapsto> JString (version (app context)),
                        ''build'' \<mapsto> JString (build (app context))])]) \<and>
      (\<forall>p a. store_context (store c) = Some p \<and> app_opt p = Some a \<and>
             version_opt a = Some (version (app context)) \<longrightarrow>
          payloads (trace (checkInstalledVersion context c)) =
            payloads (trace c) @
              [TrackEvent ''Application Opened''
                 (Some [''from_background'' \<mapsto> JBool False,
                        ''version'' \<mapsto> JString (version (app context)),
                        ''build'' \<mapsto> JString (build (app context))])])) \<and>
   (\<not> trackAppLifecycleEvents (config c) \<longrightarrow>
      payloads (trace (checkInstalledVersion context c)) = payloads (trace c)) \<and>
   store_context (store (checkInstalledVersion context c)) =
     Some \<lparr>app_opt = Some \<lparr>version_opt = Some (version (app context)),
                             build_opt = Some (build (app context))\<rparr>\<rparr>"
  by (auto simp: checkInstalledVersion_def Let_def dispatch_defs payloads_append context_app_def
      createTrackEvent_def json_of_def as_partial_def split: option.splits)

theorem checkInstalledVersion_startup_witness:
  "trackAppLifecycleEvents (config example_client) \<and>
   store_context (store example_client) = None \<and>
   payloads (trace (checkInstalledVersion \<lparr>app = \<lparr>version = ''1.0'', build = ''7''\<rparr>\<rparr> example_client)) =
     [TrackEvent ''Application Installed''
        (Some [''version'' \<mapsto> JString ''1.0'', ''build'' \<mapsto> JString ''7'']),
      TrackEvent ''Application Opened''
        (Some [''from_background'' \<mapsto> JBool False, ''version'' \<mapsto> JString ''1.0'',
               ''build'' \<mapsto> JString ''7''])] \<and>
   store_context (store (checkInstalledVersion \<lparr>app = \<lparr>version = ''1.0'', build = ''7''\<rparr>\<rparr> example_client)) =
     Some \<lparr>app_opt = Some \<lparr>version_opt = Some ''1.0'', build_opt = Some ''7''\<rparr>\<rparr> \<and>
   payloads (trace (checkInstalledVersion \<lparr>app = \<lparr>version = ''2.0'', build = ''9''\<rparr>\<rparr>
       (checkInstalledVersion \<lparr>app = \<lparr>version = ''1.0'', build = ''7''\<rparr>\<rparr> example_client))) =
     [TrackEvent ''Application Installed''
        (Some [''version'' \<mapsto> JString ''1.0'', ''build'' \<mapsto> JString ''7'']),
      TrackEvent ''Application Opened''
        (Some [''from_background'' \<mapsto> JBool False, ''version'' \<mapsto> JString ''1.0'',
               ''build'' \<mapsto> JString ''7'']),
      TrackEvent ''Application Updated''
        (Some [''version'' \<mapsto> JString ''2.0'', ''build'' \<mapsto> JString ''9'',
               ''previous_version'' \<mapsto> JString ''1.0'', ''previous_build'' \<mapsto> JString ''7'']),
      TrackEvent ''Application Opened''
        (Some [''from_background'' \<mapsto> JBool False, ''version'' \<mapsto> JString ''2.0'',
               ''build'' \<mapsto> JString ''9''])] \<and>
   payloads (trace (checkInstalledVersion \<lparr>app = \<lparr>version = ''1.0'', build = ''7''\<rparr>\<rparr>
       (checkInstalledVersion \<lparr>app = \<lparr>version = ''1.0'', build = ''7''\<rparr>\<rparr> example_client))) =
     [TrackEvent ''Application Installed''
        (Some [''version'' \<mapsto> JString ''1.0'', ''build'' \<mapsto> JString ''7'']),
      TrackEvent ''Application Opened''
        (Some [''from_background'' \<mapsto> JBool False, ''version'' \<mapsto> JString ''1.0'',
               ''build'' \<mapsto> JString ''7'']),
      TrackEvent ''Application Opened''
        (Some [''from_background'' \<mapsto> JBool False, ''version'' \<mapsto> JString ''1.0'',
               ''build'' \<mapsto> JString ''7''])] \<and>
   store_context (store (example_client\<lparr>store := example_store\<lparr>store_context := Some \<lparr>app_opt = None\<rparr>\<rparr>\<rparr>)) =
     Some \<lparr>app_opt = None\<rparr> \<and>
   payloads (trace (checkInstalledVersion \<lparr>app = \<lparr>version = ''1.0'', build = ''7''\<rparr>\<rparr>
       (example_client\<lparr>store := example_store\<lparr>store_context := Some \<lparr>app_opt = None\<rparr>\<rparr>\<rparr>))) =
     [TrackEvent ''Application Installed''
        (Some [''version'' \<mapsto> JString ''1.0'', ''build'' \<mapsto> JString ''7'']),
      TrackEvent ''Application Opened''
        (Some [''from_background'' \<mapsto> JBool False, ''version'' \<mapsto> JString ''1.0'',
               ''build'' \<mapsto> JString ''7''])] \<and>
   \<not> trackAppLifecycleEvents (config (example_client\<lparr>config := example_config\<lparr>trackAppLifecycleEvents := False\<rparr>\<rparr>)) \<and>
   store_context (store (checkInstalledVersion \<lparr>app = \<lparr>version = ''1.0'', build = ''7''\<rparr>\<rparr>
       (example_client\<lparr>config := example_config\<lparr>trackAppLifecycleEvents := False\<rparr>\<rparr>))) =
     Some \<lparr>app_opt = Some \<lparr>version_opt = Some ''1.0'', build_opt = Some ''7''\<rparr>\<rparr> \<and>
   payloads (trace (checkInstalledVersion \<lparr>app = \<lparr>version = ''1.0'', build = ''7''\<rparr>\<rparr>
       (example_client\<lparr>config := example_config\<lparr>trackAppLifecycleEvents := False\<rparr>\<rparr>))) = []"
proof -
  let ?v1 = "\<lparr>app = \<lparr>version = ''1.0'', build = ''7''\<rparr>\<rparr>"
  let ?v2 = "\<lparr>app = \<lparr>version = ''2.0'', build = ''9''\<rparr>\<rparr>"
  let ?c1 = "checkInstalledVersion ?v1 example_client"
  let ?off = "example_client\<lparr>config := example_config\<lparr>trackAppLifecycleEvents := False\<rparr>\<rparr>"
  let ?bare = "example_client\<lparr>store := example_store\<lparr>store_context := Some \<lparr>app_opt = None\<rparr>\<rparr>\<rparr>"
  let ?a1 = "\<lparr>version_opt = Some ''1.0'', build_opt = Some ''7''\<rparr>"
  have on: "trackAppLifecycleEvents (config example_client)"
    and none: "store_context (store example_client) = None"
    and tr0: "trace example_client = []"
    and off: "\<not> trackAppLifecycleEvents (config ?off)" and tr_off: "trace ?off = []"
    and on_bare: "trackAppLifecycleEvents (config ?bare)" and tr_bare: "trace ?bare = []"
    and st_bare: "store_context (store ?bare) = Some \<lparr>app_opt = None\<rparr>"
    by (simp_all add: example_defs)
  have first: "payloads (trace ?c1) =
      [TrackEvent ''Application Installed''
         (Some [''version'' \<mapsto> JString ''1.0'', ''build'' \<mapsto> JString ''7'']),
       TrackEvent ''Application Opened''
         (Some [''from_background'' \<mapsto> JBool False, ''version'' \<mapsto> JString ''1.0'',
                ''build'' \<mapsto> JString ''7''])]"
    and st1: "store_context (store ?c1) = Some \<lparr>app_opt = Some ?a1\<rparr>"
    using checkInstalledVersion_startup [of example_client ?v1] on none tr0 by simp_all
  have on1: "trackAppLifecycleEvents (config ?c1)"
    by (simp add: example_defs checkInstalledVersion_def Let_def dispatch_defs context_app_def)
  have second: "payloads (trace (checkInstalledVersion ?v2 ?c1)) =
      payloads (trace ?c1) @
        [TrackEvent ''Application Updated''
           (Some [''version'' \<mapsto> JString ''2.0'', ''build'' \<mapsto> JString ''9'',
                  ''previous_version'' \<mapsto> JString ''1.0'', ''previous_build'' \<mapsto> JString ''7'']),
         TrackEvent ''Application Opened''
           (Some [''from_background'' \<mapsto> JBool False, ''version'' \<mapsto> JString ''2.0'',
                  ''build'' \<mapsto> JString ''9''])]"
    using checkInstalledVersion_startup [of ?c1 ?v2] on1 st1 by simp
  have third: "payloads (trace (checkInstalledVersion ?v1 ?c1)) =
      payloads (trace ?c1) @
        [TrackEvent ''Application Opened''
           (Some [''from_background'' \<mapsto> JBool False, ''version'' \<mapsto> JString ''1.0'',
                  ''build'' \<mapsto> JString ''7''])]"
    using checkInstalledVersion_startup [of ?c1 ?v1] on1 st1 by simp
  have bare: "payloads (trace (checkInstalledVersion ?v1 ?bare)) =
      [TrackEvent ''Application Installed''
         (Some [''version'' \<mapsto> JString ''1.0'', ''build'' \<mapsto> JString ''7'']),
       TrackEvent ''Application Opened''
         (Some [''from_background'' \<mapsto> JBool False, ''version'' \<mapsto> JString ''1.0'',
                ''build'' \<mapsto> JString ''7''])]"
    using checkInstalledVersion_startup [of ?bare ?v1] on_bare st_bare tr_bare by simp
  have fourth: "store_context (store (checkInstalledVersion ?v1 ?off)) = Some \<lparr>app_opt = Some ?a1\<rparr>"
    and fifth: "payloads (trace (checkInstalledVersion ?v1 ?off)) = []"
    using checkInstalledVersion_startup [of ?off ?v1] off tr_off by simp_all
  show ?thesis
    using on none off st_bare by (simp add: first st1 second third bare fourth fifth)
qed

subsection \<open>App-state signals\<close>

text \<open>
  C10. With lifecycle tracking enabled, a signal that takes the tracker from inactive
  or background to active hands exactly one event to the timeline: the track event
  named Application Opened whose property from_background is true (with the version and
  build of the persisted context). A signal that takes it from active to inactive or
  background hands over exactly one event: the track event named Application
  Backgrounded, without properties. Any other pair of states hands over nothing and
  makes no other call, and so does every signal while tracking is disabled. After every
  signal the last-known state is the signalled one, whether or not an event was
  emitted.
\<close>

theorem handleAppStateChange_transitions:
  "(trackAppLifecycleEvents (config c) \<longrightarrow>
      ((appState c = inactive \<or> appState c = background) \<and> nextAppState = active \<longrightarrow>
          payloads (trace (handleAppStateChange nextAppState c)) =
            payloads (trace c) @
              [TrackEvent ''Application Opened''
                 (Some [''from_background'' \<mapsto> JBool True,
                        ''version'' \<mapsto> stored_version c,
                        ''build'' \<mapsto> stored_build c])]) \<and>
      (appState c = active \<and> (nextAppState = inactive \<or> nextAppState = background) \<longrightarrow>
          payloads (trace (handleAppStateChange nextAppState c)) =
            payloads (trace c) @ [TrackEvent ''Application Backgrounded'' None]) \<and>
      (\<not> ((appState c = inactive \<or> appState c = background) \<and> nextAppState = active) \<and>
       \<not> (appState c = active \<and> (nextAppState = inactive \<or> nextAppState = background)) \<longrightarrow>
          trace (handleAppStateChange nextAppState c) = trace c)) \<and>
   (\<not> trackAppLifecycleEvents (config c) \<longrightarrow>
      trace (handleAppStateChange nextAppState c) = trace c) \<and>
   appState (handleAppStateChange nextAppState c) = nextAppState"
  by (auto simp: handleAppStateChange_def Let_def dispatch_defs payloads_append
      stored_version_def stored_build_def context_app_def json_of_def createTrackEvent_def
      split: option.splits)

theorem handleAppStateChange_transitions_witness:
  "trackAppLifecycleEvents (config (example_client\<lparr>appState := background,
       store := example_store\<lparr>store_context :=
         Some \<lparr>app_opt = Some \<lparr>version_opt = Some ''1.0'', build_opt = Some ''7''\<rparr>\<rparr>\<rparr>\<rparr>)) \<and>
   payloads (trace (handleAppStateChange active (example_client\<lparr>appState := background,
       store := example_store\<lparr>store_context :=
         Some \<lparr>app_opt = Some \<lparr>version_opt = Some ''1.0'', build_opt = Some ''7''\<rparr>\<rparr>\<rparr>\<rparr>))) =
     [TrackEvent ''Application Opened''
        (Some [''from_background'' \<mapsto> JBool True, ''version'' \<mapsto> JString ''1.0'',
               ''build'' \<mapsto> JString ''7''])] \<and>
   payloads (trace (handleAppStateChange background (example_client\<lparr>appState := background,
       store := example_store\<lparr>store_context :=
         Some \<lparr>app_opt = Some \<lparr>version_opt = Some ''1.0'', build_opt = Some ''7''\<rparr>\<rparr>\<rparr>\<rparr>))) = [] \<and>
   payloads (trace (handleAppStateChange inactive
       (handleAppStateChange active (example_client\<lparr>appState := background,
          store := example_store\<lparr>store_context :=
            Some \<lparr>app_opt = Some \<lparr>version_opt = Some ''1.0'', build_opt = Some ''7''\<rparr>\<rparr>\<rparr>\<rparr>)))) =
     [TrackEvent ''Application Opened''
        (Some [''from_background'' \<mapsto> JBool True, ''version'' \<mapsto> JString ''1.0'',
               ''build'' \<mapsto> JString ''7'']),
      TrackEvent ''Application Backgrounded'' None] \<and>
   appState (handleAppStateChange inactive
       (handleAppStateChange active (example_client\<lparr>appState := background,
          store := example_store\<lparr>store_context :=
            Some \<lparr>app_opt = Some \<lparr>version_opt = Some ''1.0'', build_opt = Some ''7''\<rparr>\<rparr>\<rparr>\<rparr>))) = inactive"
proof -
  let ?c = "example_client\<lparr>appState := background,
       store := example_store\<lparr>store_context :=
         Some \<lparr>app_opt = Some \<lparr>version_opt = Some ''1.0'', build_opt = Some ''7''\<rparr>\<rparr>\<rparr>\<rparr>"
  let ?d = "handleAppStateChange active ?c"
  have on: "trackAppLifecycleEvents (config ?c)" and st: "appState ?c = background"
    and tr: "trace ?c = []"
    and ver: "stored_version ?c = JString ''1.0''" and bld: "stored_build ?c = JString ''7''"
    by (simp_all add: example_defs stored_version_def stored_build_def)
  have opened: "payloads (trace ?d) =
      payloads (trace ?c) @
        [TrackEvent ''Application Opened''
           (Some [''from_background'' \<mapsto> JBool True, ''version'' \<mapsto> stored_version ?c,
                  ''build'' \<mapsto> stored_build ?c])]"
    and now_active: "appState ?d = active"
    using handleAppStateChange_transitions [of ?c active] on st by simp_all
  have same: "trace (handleAppStateChange background ?c) = trace ?c"
    using handleAppStateChange_transitions [of ?c background] on st by simp
  have on_d: "trackAppLifecycleEvents (config ?d)"
    using on by (simp add: handleAppStateChange_def Let_def dispatch_defs)
  have backgrounded: "payloads (trace (handleAppStateChange inactive ?d)) =
      payloads (trace ?d) @ [TrackEvent ''Application Backgrounded'' None]"
    and now_inactive: "appState (handleAppStateChange inactive ?d) = inactive"
    using handleAppStateChange_transitions [of ?d inactive] on_d now_active by simp_all
  show ?thesis
    using on by (simp add: backgrounded opened same now_inactive tr ver bld)
qed

end
